theory Spec2Isabelle
  imports Complex_Main "HOL-Library.Sublist"
begin

section \<open>Python primitives used by the converter\<close>

text \<open>
  The converter is one Python module. Its times are Python floats: a double is modelled
  by the real number it denotes, and the result of an operation on doubles is the exact
  result rounded to the nearest double by \<open>fl\<close>. Infinities and NaN are outside the
  model. Its strings are modelled as \<open>string\<close>, one \<open>char\<close> per code point below 256.
  Tuples stay tuples.
\<close>

subsection \<open>Strings\<close>

text \<open>The code points below 256 that \<^verbatim>\<open>str.strip()\<close> removes.\<close>

definition py_isspace :: "char \<Rightarrow> bool" where
  "py_isspace c \<longleftrightarrow>
     c \<in> set [CHR 0x09, CHR 0x0A, CHR 0x0B, CHR 0x0C, CHR 0x0D,
               CHR 0x1C, CHR 0x1D, CHR 0x1E, CHR 0x1F, CHR 0x20, CHR 0x85, CHR 0xA0]"

text \<open>\<^verbatim>\<open>text.strip()\<close>: whitespace is dropped at both ends.\<close>

definition py_strip :: "string \<Rightarrow> string" where
  "py_strip s = rev (dropWhile py_isspace (rev (dropWhile py_isspace s)))"

text \<open>\<^verbatim>\<open>sub in text\<close>: \<open>sub\<close> occurs in \<open>text\<close> as a contiguous run; the empty
  string occurs in every string.\<close>

fun py_in :: "string \<Rightarrow> string \<Rightarrow> bool" where
  "py_in sub [] \<longleftrightarrow> sub = []"
| "py_in sub (c # cs) \<longleftrightarrow> prefix sub (c # cs) \<or> py_in sub cs"

text \<open>\<^verbatim>\<open>text.replace(old, new)\<close> for a non-empty \<open>old\<close>: the occurrences are
  replaced from the left, without overlap.\<close>

function replace_from_left :: "string \<Rightarrow> string \<Rightarrow> string \<Rightarrow> string" where
  "replace_from_left old new [] = []"
| "replace_from_left old new (c # cs) =
     (if old \<noteq> [] \<and> prefix old (c # cs)
      then new @ replace_from_left old new (drop (length old) (c # cs))
      else c # replace_from_left old new cs)"
  by pat_completeness auto
termination
  by (relation "measure (\<lambda>(old, new, s). length s)") auto

text \<open>\<^verbatim>\<open>text.replace(old, new)\<close>; with an empty \<open>old\<close> Python puts \<open>new\<close> before
  every character and at the end.\<close>

definition py_replace :: "string \<Rightarrow> string \<Rightarrow> string \<Rightarrow> string" where
  "py_replace old new s =
     (if old = [] then new @ concat (map (\<lambda>c. c # new) s)
      else replace_from_left old new s)"

subsection \<open>Numbers\<close>

text \<open>\<^verbatim>\<open>int(x)\<close> on a float truncates toward zero.\<close>

definition py_int :: "real \<Rightarrow> int" where
  "py_int x = (if 0 \<le> x then \<lfloor>x\<rfloor> else \<lceil>x\<rceil>)"

subsection \<open>Doubles\<close>

text \<open>The nearest integer, the even one of two that are equally near.\<close>

definition round_half_even :: "real \<Rightarrow> int" where
  "round_half_even r =
     (let n = \<lfloor>r\<rfloor>; d = r - of_int n
      in if d < 1 / 2 then n else if 1 / 2 < d then n + 1 else if even n then n else n + 1)"

text \<open>
  The exponent \<open>e\<close> with \<open>2 powi e \<le> \<bar>x\<bar> < 2 powi (e + 1)\<close>, and \<open>-1022\<close> below the
  normal range.
\<close>

definition binade :: "real \<Rightarrow> int" where
  "binade x = max \<lfloor>log 2 \<bar>x\<bar>\<rfloor> (- 1022)"

text \<open>
  IEEE 754 binary64 rounding, to nearest with ties to even: the doubles of a binade are
  the multiples of \<open>2 powi (e - 52)\<close>. A result too large for a double, which the
  machine turns into an infinity, is outside the model.
\<close>

definition fl :: "real \<Rightarrow> real" where
  "fl x = (if x = 0 then 0
           else of_int (round_half_even (x / 2 powi (binade x - 52))) * 2 powi (binade x - 52))"

text \<open>
  \<^verbatim>\<open>x % m\<close> on floats. C's \<^verbatim>\<open>fmod\<close> gives the exact remainder of the division cut
  toward zero, with the sign of \<open>x\<close>; when it is not zero and its sign is not that of
  \<open>m\<close>, Python adds \<open>m\<close>, in doubles.
\<close>

definition py_mod :: "real \<Rightarrow> real \<Rightarrow> real" where
  "py_mod x m =
     (let r = x - m * of_int (py_int (x / m))
      in if r \<noteq> 0 \<and> (m < 0) \<noteq> (r < 0) then fl (r + m) else r)"

definition digit_char :: "nat \<Rightarrow> char" where
  "digit_char d = ''0123456789'' ! d"

text \<open>The decimal digits of a natural number, as \<^verbatim>\<open>str\<close> prints them.\<close>

function str_nat :: "nat \<Rightarrow> string" where
  "str_nat n = (if n < 10 then [digit_char n] else str_nat (n div 10) @ [digit_char (n mod 10)])"
  by pat_completeness auto
termination
  by (relation "measure id") auto

declare str_nat.simps [simp del]

text \<open>\<^verbatim>\<open>f"{i}"\<close> for an integer.\<close>

definition str_int :: "int \<Rightarrow> string" where
  "str_int i = (if i < 0 then CHR ''-'' # str_nat (nat (- i)) else str_nat (nat i))"

text \<open>\<^verbatim>\<open>f"{i:02d}"\<close>: the sign, then the digits padded with zeros to a total width
  of two.\<close>

definition fmt_02d :: "int \<Rightarrow> string" where
  "fmt_02d i =
     (if i < 0 then CHR ''-'' # replicate (1 - length (str_nat (nat (- i)))) CHR ''0'' @ str_nat (nat (- i))
      else replicate (2 - length (str_nat (nat i))) CHR ''0'' @ str_nat (nat i))"

section \<open>The data of the converter\<close>

text \<open>
  An interval of a tier is the tuple \<open>(start_time, end_time, text)\<close>; a word of a
  phrase is \<open>(start, end, text, has_marker)\<close>; a phrase is
  \<open>(start_time, end_time, word_list)\<close>.
\<close>

type_synonym interval = "real \<times> real \<times> string"
type_synonym word = "real \<times> real \<times> string \<times> bool"
type_synonym phrase = "real \<times> real \<times> word list"

text \<open>The components of a word and of a phrase.\<close>

fun word_start :: "word \<Rightarrow> real" where
  "word_start (start, end, text, has_marker) = start"

fun word_end :: "word \<Rightarrow> real" where
  "word_end (start, end, text, has_marker) = end"

fun word_text :: "word \<Rightarrow> string" where
  "word_text (start, end, text, has_marker) = text"

fun word_has_marker :: "word \<Rightarrow> bool" where
  "word_has_marker (start, end, text, has_marker) = has_marker"

fun phrase_start :: "phrase \<Rightarrow> real" where
  "phrase_start (start, end, words) = start"

fun phrase_end :: "phrase \<Rightarrow> real" where
  "phrase_end (start, end, words) = end"

fun phrase_words :: "phrase \<Rightarrow> word list" where
  "phrase_words (start, end, words) = words"

section \<open>\<^verbatim>\<open>group_into_phrases\<close>\<close>

subsection \<open>The first loop: filtering\<close>

text \<open>
  \<^verbatim>\<open>if not text.strip() or text == "<p:>": continue\<close>, then
  \<^verbatim>\<open>has_marker = phrase_marker in text\<close> and the append of
  \<^verbatim>\<open>(start, end, text, has_marker)\<close> with the text as it came.
\<close>

fun filter_intervals :: "string \<Rightarrow> interval list \<Rightarrow> word list" where
  "filter_intervals phrase_marker [] = []"
| "filter_intervals phrase_marker ((start, end, text) # rest) =
     (if py_strip text = [] \<or> text = ''<p:>'' then filter_intervals phrase_marker rest
      else (start, end, text, py_in phrase_marker text) # filter_intervals phrase_marker rest)"

subsection \<open>The second loop: grouping\<close>

text \<open>
  The variables of the loop. \<open>current_start\<close> and \<open>current_end\<close> start as
  \<^verbatim>\<open>None\<close>, \<open>last_phrase_end\<close> as 0.
\<close>

record seg_state =
  phrases :: "phrase list"
  current_words :: "word list"
  current_start :: "real option"
  current_end :: "real option"
  last_phrase_end :: real

definition init_state :: seg_state where
  "init_state = \<lparr>phrases = [], current_words = [], current_start = None,
                  current_end = None, last_phrase_end = 0\<rparr>"

text \<open>
  \<open>TypeError\<close> is Python's, raised by arithmetic on \<^verbatim>\<open>None\<close>. \<open>NoneEnd\<close>
  marks the one place where the loop would store \<open>current_end\<close> into a phrase and into
  \<open>last_phrase_end\<close> while it is still \<^verbatim>\<open>None\<close>; Python would go on with
  \<^verbatim>\<open>None\<close> in the tuple, the model stops there. Lemma \<open>group_into_phrases_returns\<close>
  shows that this never happens.
\<close>

datatype error = TypeError | NoneEnd

definition phrase_marker_condition :: "bool \<Rightarrow> real \<Rightarrow> real \<Rightarrow> real \<Rightarrow> word list \<Rightarrow> bool" where
  "phrase_marker_condition has_marker start last_end min_gap cur_words \<longleftrightarrow>
     has_marker \<and> start - last_end \<ge> min_gap \<and> cur_words \<noteq> []"

definition duration_condition :: "real \<Rightarrow> real \<Rightarrow> real \<Rightarrow> word list \<Rightarrow> bool" where
  "duration_condition end cur_start target cur_words \<longleftrightarrow>
     end - cur_start > target \<and> cur_words \<noteq> []"

text \<open>
  \<^verbatim>\<open>last_word = current_words[-1]\<close> and
  \<^verbatim>\<open>current_words[-1] = (last_word[0], last_word[1], last_word[2], last_word[3])\<close>:
  the last word is rebuilt from its own four components.
\<close>

definition rewrite_last :: "word list \<Rightarrow> word list" where
  "rewrite_last ws =
     ws[length ws - 1 := (case last ws of (w0, w1, w2, w3) \<Rightarrow> (w0, w1, w2, w3))]"

text \<open>The word stored in a phrase: the marker is replaced by a space, then the text is
  stripped.\<close>

definition stored_word :: "string \<Rightarrow> word \<Rightarrow> word" where
  "stored_word marker w =
     (case w of (start, end, text, has_marker) \<Rightarrow>
        (start, end, py_strip (py_replace marker '' '' text), has_marker))"

text \<open>
  One iteration of \<^verbatim>\<open>for start, end, text, has_marker in filtered_intervals\<close>. A
  phrase put into \<open>phrases\<close> is never changed afterwards: \<open>current_words\<close> is bound to
  a new list right after, so the later appends do not reach it. The two differences are
  compared as they are, not rounded to a double first.
\<close>

fun loop_body :: "string \<Rightarrow> real \<Rightarrow> real \<Rightarrow> seg_state \<Rightarrow> word \<Rightarrow> error + seg_state" where
  "loop_body marker min_gap target st (start, end, text, has_marker) =
     (let cur_start = (case current_start st of None \<Rightarrow> start | Some c \<Rightarrow> c);
          cur_words = current_words st
      in if phrase_marker_condition has_marker start (last_phrase_end st) min_gap cur_words
            \<or> duration_condition end cur_start target cur_words
         then
           (if cur_words \<noteq> [] then
              (case current_end st of
                 None \<Rightarrow> Inl NoneEnd
               | Some cur_end \<Rightarrow>
                   Inr \<lparr>phrases = phrases st @
                          [(cur_start, cur_end,
                            if has_marker then rewrite_last cur_words else cur_words)],
                        current_words = [stored_word marker (start, end, text, has_marker)],
                        current_start = Some start,
                        current_end = Some end,
                        last_phrase_end = cur_end\<rparr>)
            else
              Inr (st\<lparr>current_words := [stored_word marker (start, end, text, has_marker)],
                      current_start := Some start,
                      current_end := Some end\<rparr>))
         else
           Inr (st\<lparr>current_words :=
                      cur_words @ [stored_word marker (start, end, text, has_marker)],
                   current_start := Some cur_start,
                   current_end := Some end\<rparr>))"

fun run_loop :: "string \<Rightarrow> real \<Rightarrow> real \<Rightarrow> seg_state \<Rightarrow> word list \<Rightarrow> error + seg_state" where
  "run_loop marker min_gap target st [] = Inr st"
| "run_loop marker min_gap target st (w # ws) =
     (case loop_body marker min_gap target st w of
        Inl e \<Rightarrow> Inl e
      | Inr st' \<Rightarrow> run_loop marker min_gap target st' ws)"

text \<open>\<^verbatim>\<open>if current_words and current_start is not None\<close>: the last phrase.\<close>

definition flush :: "seg_state \<Rightarrow> error + phrase list" where
  "flush st =
     (if current_words st \<noteq> [] then
        (case current_start st of
           None \<Rightarrow> Inr (phrases st)
         | Some cur_start \<Rightarrow>
             (case current_end st of
                None \<Rightarrow> Inl NoneEnd
              | Some cur_end \<Rightarrow> Inr (phrases st @ [(cur_start, cur_end, current_words st)])))
      else Inr (phrases st))"

definition group_into_phrases ::
    "interval list \<Rightarrow> string \<Rightarrow> real \<Rightarrow> real \<Rightarrow> error + phrase list" where
  "group_into_phrases intervals marker min_gap target =
     (case run_loop marker min_gap target init_state (filter_intervals marker intervals) of
        Inl e \<Rightarrow> Inl e
      | Inr st \<Rightarrow> flush st)"

section \<open>\<^verbatim>\<open>create_karaoke_line\<close>\<close>

text \<open>The tag \<^verbatim>\<open>{\K<n>}\<close>.\<close>

definition k_tag :: "int \<Rightarrow> string" where
  "k_tag n = [CHR ''{'', CHR 0x5C, CHR ''K''] @ str_int n @ ''}''"

text \<open>
  \<^verbatim>\<open>for i, (start, end, text, has_marker) in enumerate(words)\<close>, with the index
  \<open>i\<close> and the string \<open>result\<close> built so far.
\<close>

fun karaoke_loop :: "nat \<Rightarrow> word list \<Rightarrow> string \<Rightarrow> string" where
  "karaoke_loop i [] result = result"
| "karaoke_loop i ((start, end, text, has_marker) # rest) result =
     (let duration_cs = py_int (fl (fl (end - start) * 100));
          result1 = (if i > 0 \<and> has_marker then result @ '' '' else result)
      in karaoke_loop (Suc i) rest (result1 @ k_tag duration_cs @ text @ '' ''))"

definition create_karaoke_line :: "word list \<Rightarrow> string" where
  "create_karaoke_line words = karaoke_loop 0 words []"

section \<open>\<^verbatim>\<open>format_time\<close>\<close>

definition format_time :: "real \<Rightarrow> string" where
  "format_time seconds =
     (let hours = py_int (fl (seconds / 3600));
          minutes = py_int (fl (py_mod seconds 3600 / 60));
          seconds1 = py_mod seconds 60;
          centiseconds = py_int (fl (fl (seconds1 - of_int (py_int seconds1)) * 100))
      in str_int hours @ '':'' @ fmt_02d minutes @ '':'' @ fmt_02d (py_int seconds1)
           @ ''.'' @ fmt_02d centiseconds)"

section \<open>\<^verbatim>\<open>create_ass_file\<close>\<close>

definition header :: "string \<Rightarrow> string" where
  "header style_name =
      ''[Script Info]'' @ [CHR 0x0A] @
      ''; Script generated by TextGrid to ASS Converter for Karaoke'' @ [CHR 0x0A] @
      ''Title: Karaoke from TextGrid'' @ [CHR 0x0A] @
      ''ScriptType: v4.00+'' @ [CHR 0x0A] @
      ''WrapStyle: 0'' @ [CHR 0x0A] @
      ''ScaledBorderAndShadow: yes'' @ [CHR 0x0A] @
      ''YCbCr Matrix: None'' @ [CHR 0x0A] @
      ''PlayResX: 1920'' @ [CHR 0x0A] @
      ''PlayResY: 1080'' @ [CHR 0x0A] @
      [CHR 0x0A] @
      ''[V4+ Styles]'' @ [CHR 0x0A] @
      ''Format: Name, Fontname, Fontsize, PrimaryColour, SecondaryColour, OutlineColour, BackColour, Bold, Italic, Underline, StrikeOut, ScaleX, ScaleY, Spacing, Angle, BorderStyle, Outline, Shadow, Alignment, MarginL, MarginR, MarginV, Encoding'' @ [CHR 0x0A] @
      ''Style: '' @ style_name @ '',Arial,48,&H00FFFFFF,&H000000FF,&H00000000,&H80000000,1,0,0,0,100,100,0,0,1,2,2,2,10,10,40,1'' @ [CHR 0x0A] @
      ''Style: Voice1,Microsoft PhagsPa,80,&H00D58847,&H00FFFFFF,&H00000000,&H00000000,0,0,0,0,100,100,0,0,1,2,2,1,100,10,100,1'' @ [CHR 0x0A] @
      ''Style: Voice2,Microsoft PhagsPa,80,&H0092D8F9,&H00FFFFFF,&H00000000,&H00000000,0,0,0,0,100,100,0,0,1,2,2,3,10,100,10,1'' @ [CHR 0x0A] @
      ''Style: Line1,Microsoft PhagsPa,100,&H00FFDB00,&H00FFFFFF,&H00000000,&H00000000,0,0,0,0,100,100,0,0,1,2,2,1,100,10,170,1'' @ [CHR 0x0A] @
      ''Style: Line2,Microsoft PhagsPa,100,&H00FFDB00,&H00FFFFFF,&H00000000,&H00000000,0,0,0,0,100,100,0,0,1,2,2,3,0,100,50,1'' @ [CHR 0x0A] @
      [CHR 0x0A] @
      ''[Events]'' @ [CHR 0x0A] @
      ''Format: Layer, Start, End, Style, Name, MarginL, MarginR, MarginV, Effect, Text'' @ [CHR 0x0A]"

text \<open>\<^verbatim>\<open>sep.join(xs)\<close>.\<close>

fun py_join :: "string \<Rightarrow> string list \<Rightarrow> string" where
  "py_join sep [] = []"
| "py_join sep [x] = x"
| "py_join sep (x # y # ys) = x @ sep @ py_join sep (y # ys)"

text \<open>
  The loop over the phrases, with the list \<open>events\<close> built so far. \<open>shift\<close> is
  \<open>None\<close> when the caller passes Python's \<^verbatim>\<open>None\<close>; then
  \<^verbatim>\<open>start + shift_time\<close> raises \<open>TypeError\<close> at the first phrase.
\<close>

fun events_loop :: "string \<Rightarrow> real option \<Rightarrow> phrase list \<Rightarrow> string list \<Rightarrow> error + string list" where
  "events_loop style_name shift [] events = Inr events"
| "events_loop style_name shift ((start, end, words) # rest) events =
     (case shift of
        None \<Rightarrow> Inl TypeError
      | Some sh \<Rightarrow>
          (let shifted_start = max 0 (fl (start + sh));
               start_time = format_time shifted_start;
               end_time = format_time end;
               karaoke_text = create_karaoke_line words;
               karaoke_text1 = k_tag (py_int (fl (sh * - 100))) @ karaoke_text
           in events_loop style_name shift rest
                (events @ [''Dialogue: 0,'' @ start_time @ '','' @ end_time @ '','' @ style_name
                           @ '',,0,0,0,,'' @ karaoke_text1])))"

text \<open>The result is the text written to \<open>output_file\<close>; nothing is written when an
  exception is raised, since the file is opened after the loop.\<close>

definition create_ass_file ::
    "interval list \<Rightarrow> string \<Rightarrow> string \<Rightarrow> real \<Rightarrow> real \<Rightarrow> real option \<Rightarrow> error + string" where
  "create_ass_file intervals style_name marker min_gap target shift =
     (case group_into_phrases intervals marker min_gap target of
        Inl e \<Rightarrow> Inl e
      | Inr phrs \<Rightarrow>
          (case events_loop style_name shift phrs [] of
             Inl e \<Rightarrow> Inl e
           | Inr events \<Rightarrow> Inr (header style_name @ py_join [CHR 0x0A] events)))"

section \<open>\<^verbatim>\<open>main\<close>\<close>

text \<open>
  What the user typed: the two positional arguments, and each option if it was given.
\<close>

record command_line =
  cl_input :: string
  cl_output :: string
  cl_tier :: "string option"
  cl_style :: "string option"
  cl_phrase_marker :: "string option"
  cl_min_phrase_gap :: "real option"
  cl_target_duration :: "real option"
  cl_shift_time :: "real option"

text \<open>The namespace \<^verbatim>\<open>args\<close>.\<close>

record args =
  arg_input :: string
  arg_output :: string
  arg_tier :: string
  arg_style :: string
  arg_phrase_marker :: string
  arg_min_phrase_gap :: real
  arg_target_duration :: real
  arg_shift_time :: "real option"

text \<open>
  \<^verbatim>\<open>parser.parse_args()\<close> for the parser that \<^verbatim>\<open>main\<close> builds: an option that
  was not given takes the \<^verbatim>\<open>default\<close> of its \<^verbatim>\<open>add_argument\<close>.
  \<^verbatim>\<open>--shift-time\<close> is added without one, so it is \<^verbatim>\<open>None\<close> when not given.
\<close>

definition parse_args :: "command_line \<Rightarrow> args" where
  "parse_args cl =
     \<lparr>arg_input = cl_input cl,
      arg_output = cl_output cl,
      arg_tier = (case cl_tier cl of None \<Rightarrow> ''words'' | Some v \<Rightarrow> v),
      arg_style = (case cl_style cl of None \<Rightarrow> ''Default'' | Some v \<Rightarrow> v),
      arg_phrase_marker = (case cl_phrase_marker cl of None \<Rightarrow> ''<eps>'' | Some v \<Rightarrow> v),
      arg_min_phrase_gap = (case cl_min_phrase_gap cl of None \<Rightarrow> 2.0 | Some v \<Rightarrow> v),
      arg_target_duration = (case cl_target_duration cl of None \<Rightarrow> 5.0 | Some v \<Rightarrow> v),
      arg_shift_time = cl_shift_time cl\<rparr>"

text \<open>
  How a run ends: the tier is missing (the names of the tiers are printed, no file is
  written), or the text is written to the output path.
\<close>

datatype run_result = Tier_not_found "string list" | Written string string

text \<open>
  \<^verbatim>\<open>main\<close> after \<^verbatim>\<open>parse_textgrid\<close>, whose result \<open>tiers\<close> is a dictionary from
  tier names to interval lists, here in the order of its keys.
\<close>

definition main :: "command_line \<Rightarrow> (string \<times> interval list) list \<Rightarrow> error + run_result" where
  "main cl tiers =
     (let a = parse_args cl in
      case map_of tiers (arg_tier a) of
        None \<Rightarrow> Inr (Tier_not_found (map fst tiers))
      | Some intervals \<Rightarrow>
          (case create_ass_file intervals (arg_style a) (arg_phrase_marker a) (arg_min_phrase_gap a)
                  (arg_target_duration a) (arg_shift_time a) of
             Inl e \<Rightarrow> Inl e
           | Inr text \<Rightarrow> Inr (Written (arg_output a) text)))"

section \<open>The specification's wording\<close>

text \<open>
  The definitions of this section follow the specification, not the code; the theorems
  below compare them with the code.
\<close>

text \<open>
  The encoder, per word: \<open>duration_cs = floor((end - start) * 100)\<close>, the difference and
  the product being those of doubles; a space before the tag when the word is not the
  first and has the marker; then the tag, the text and one space.
\<close>

definition spec_word_markup :: "bool \<Rightarrow> word \<Rightarrow> string" where
  "spec_word_markup is_first w =
     (case w of (start, end, text, has_marker) \<Rightarrow>
        (if \<not> is_first \<and> has_marker then '' '' else []) @
        k_tag \<lfloor>fl (fl (end - start) * 100)\<rfloor> @ text @ '' '')"

definition spec_encode :: "word list \<Rightarrow> string" where
  "spec_encode ws =
     (case ws of
        [] \<Rightarrow> []
      | w # rest \<Rightarrow> spec_word_markup True w @ concat (map (spec_word_markup False) rest))"

text \<open>
  The time format \<open>H:MM:SS.cc\<close>: the hours unpadded, the minutes and the seconds on two
  digits, the centiseconds cut to two digits. The hours are the quotient by 3600 as a
  double, cut; the minutes are the remainder modulo 3600 divided by 60 as a double, cut;
  the seconds are the whole seconds modulo 60; the centiseconds are the fractional part
  times 100 as a double, cut.
\<close>

definition two_digits :: "int \<Rightarrow> string" where
  "two_digits n = [digit_char (nat (n div 10)), digit_char (nat (n mod 10))]"

definition spec_format_time :: "real \<Rightarrow> string" where
  "spec_format_time x =
     str_int \<lfloor>fl (x / 3600)\<rfloor> @ '':'' @
     two_digits \<lfloor>fl ((x - 3600 * of_int \<lfloor>x / 3600\<rfloor>) / 60)\<rfloor> @ '':'' @
     two_digits (\<lfloor>x\<rfloor> mod 60) @ ''.'' @
     two_digits \<lfloor>fl ((x - of_int \<lfloor>x\<rfloor>) * 100)\<rfloor>"

text \<open>
  The event of a phrase: the displayed start is \<open>max(0, start + shift_time)\<close>, the sum
  being that of doubles, the displayed end is the phrase's end, and the markup starts with
  the lead-in tag, whose number is \<open>lead_in\<close>.
\<close>

definition spec_event :: "string \<Rightarrow> real \<Rightarrow> int \<Rightarrow> phrase \<Rightarrow> string" where
  "spec_event style_name shift lead_in p =
     ''Dialogue: 0,'' @ format_time (max 0 (fl (phrase_start p + shift))) @ '','' @
     format_time (phrase_end p) @ '','' @ style_name @ '',,0,0,0,,'' @
     k_tag lead_in @ create_karaoke_line (phrase_words p)"

section \<open>The invariant of the grouping loop\<close>

text \<open>
  A phrase is well formed when it has words, starts where its first word starts, ends
  where its last word ends, and, with two words or more, is not longer than the target.
\<close>

definition phrase_ok :: "real \<Rightarrow> phrase \<Rightarrow> bool" where
  "phrase_ok target p \<longleftrightarrow>
     phrase_words p \<noteq> [] \<and>
     phrase_start p = word_start (hd (phrase_words p)) \<and>
     phrase_end p = word_end (last (phrase_words p)) \<and>
     (2 \<le> length (phrase_words p) \<longrightarrow> phrase_end p - phrase_start p \<le> target)"

text \<open>
  Between two iterations: the phrases stored are well formed; with no word accumulated
  \<open>current_start\<close> is still \<^verbatim>\<open>None\<close>; otherwise \<open>current_start\<close> and
  \<open>current_end\<close> are set and the accumulated phrase is well formed.
\<close>

definition acc_ok :: "real \<Rightarrow> seg_state \<Rightarrow> bool" where
  "acc_ok target st \<longleftrightarrow>
     (\<forall>p \<in> set (phrases st). phrase_ok target p) \<and>
     (if current_words st = [] then current_start st = None
      else \<exists>cs ce. current_start st = Some cs \<and> current_end st = Some ce \<and>
             phrase_ok target (cs, ce, current_words st))"

text \<open>All the words a state holds, in order.\<close>

definition words_of :: "seg_state \<Rightarrow> word list" where
  "words_of st = concat (map phrase_words (phrases st)) @ current_words st"


section \<open>The markup of one word\<close>

text \<open>What the loop adds for one word at index \<open>i\<close>.\<close>

definition word_markup :: "nat \<Rightarrow> word \<Rightarrow> string" where
  "word_markup i w =
     (if i > 0 \<and> word_has_marker w then '' '' else []) @
     k_tag (py_int (fl (fl (word_end w - word_start w) * 100))) @ word_text w @ '' ''"

section \<open>Properties\<close>

lemma py_in_iff_sublist: "py_in sub s \<longleftrightarrow> sublist sub s"
  by (induction s) (auto simp: sublist_Cons_right)

subsection \<open>Grouping\<close>

lemma rewrite_last_same: "rewrite_last ws = ws"
  by (cases ws rule: rev_cases) (auto simp: rewrite_last_def split: prod.splits)

lemma acc_ok_init: "acc_ok target init_state"
  by (simp add: acc_ok_def init_state_def)

lemma loop_body_ok:
  assumes "acc_ok target st"
  shows "\<exists>st'. loop_body marker min_gap target st w = Inr st' \<and> acc_ok target st' \<and>
           words_of st' = words_of st @ [stored_word marker w]"
proof -
  obtain start e tx has_marker where fields: "w = (start, e, tx, has_marker)"
    by (cases w) auto
  from assms have old: "\<forall>p \<in> set (phrases st). phrase_ok target p"
    by (simp add: acc_ok_def)
  show ?thesis
  proof (cases "current_words st = []")
    case True
    with assms have none: "current_start st = None"
      by (simp add: acc_ok_def)
    let ?st' = "st\<lparr>current_words := [] @ [stored_word marker w],
                    current_start := Some start, current_end := Some e\<rparr>"
    have "loop_body marker min_gap target st w = Inr ?st'"
      using True none
      by (simp add: fields phrase_marker_condition_def duration_condition_def Let_def)
    moreover have "acc_ok target ?st'"
      using old by (auto simp: acc_ok_def phrase_ok_def fields stored_word_def)
    moreover have "words_of ?st' = words_of st @ [stored_word marker w]"
      using True by (simp add: words_of_def)
    ultimately show ?thesis by blast
  next
    case False
    with assms obtain cs ce where acc: "current_start st = Some cs" "current_end st = Some ce"
      "phrase_ok target (cs, ce, current_words st)"
      by (auto simp: acc_ok_def)
    show ?thesis
    proof (cases "phrase_marker_condition has_marker start (last_phrase_end st) min_gap (current_words st)
            \<or> duration_condition e cs target (current_words st)")
      case True
      let ?st' = "\<lparr>phrases = phrases st @ [(cs, ce, current_words st)],
                   current_words = [stored_word marker w],
                   current_start = Some start, current_end = Some e, last_phrase_end = ce\<rparr>"
      have "loop_body marker min_gap target st w = Inr ?st'"
        using True \<open>current_words st \<noteq> []\<close> acc(1,2)
        by (simp add: fields rewrite_last_same Let_def)
      moreover have "acc_ok target ?st'"
        using old acc(3) by (auto simp: acc_ok_def phrase_ok_def fields stored_word_def)
      moreover have "words_of ?st' = words_of st @ [stored_word marker w]"
        by (simp add: words_of_def)
      ultimately show ?thesis by blast
    next
      case no_trigger: False
      then have short: "e - cs \<le> target"
        using \<open>current_words st \<noteq> []\<close> by (simp add: duration_condition_def)
      let ?st' = "st\<lparr>current_words := current_words st @ [stored_word marker w],
                      current_start := Some cs, current_end := Some e\<rparr>"
      have "loop_body marker min_gap target st w = Inr ?st'"
        using no_trigger acc(1,2) by (simp add: fields Let_def)
      moreover have "acc_ok target ?st'"
        using old acc(3) short \<open>current_words st \<noteq> []\<close>
        by (auto simp: acc_ok_def phrase_ok_def fields stored_word_def)
      moreover have "words_of ?st' = words_of st @ [stored_word marker w]"
        by (simp add: words_of_def)
      ultimately show ?thesis by blast
    qed
  qed
qed

lemma run_loop_ok:
  "acc_ok target st \<Longrightarrow>
   \<exists>st'. run_loop marker min_gap target st ws = Inr st' \<and> acc_ok target st' \<and>
     words_of st' = words_of st @ map (stored_word marker) ws"
proof (induction ws arbitrary: st)
  case Nil
  then show ?case by simp
next
  case (Cons w ws)
  from loop_body_ok [OF Cons.prems]
  obtain st1 where st1: "loop_body marker min_gap target st w = Inr st1" "acc_ok target st1"
    "words_of st1 = words_of st @ [stored_word marker w]"
    by blast
  from Cons.IH [OF st1(2)] obtain st' where
    "run_loop marker min_gap target st1 ws = Inr st'" "acc_ok target st'"
    "words_of st' = words_of st1 @ map (stored_word marker) ws"
    by blast
  with st1 show ?case by simp
qed

lemma flush_ok:
  assumes "acc_ok target st"
  shows "\<exists>ps. flush st = Inr ps \<and> (\<forall>p \<in> set ps. phrase_ok target p) \<and>
           concat (map phrase_words ps) = words_of st"
  using assms by (auto simp: flush_def acc_ok_def words_of_def split: if_splits)

lemma group_into_phrases_returns:
  "\<exists>ps. group_into_phrases intervals marker min_gap target = Inr ps \<and>
     (\<forall>p \<in> set ps. phrase_ok target p) \<and>
     concat (map phrase_words ps) = map (stored_word marker) (filter_intervals marker intervals)"
proof -
  from run_loop_ok [OF acc_ok_init]
  obtain st where st: "run_loop marker min_gap target init_state (filter_intervals marker intervals) = Inr st"
    "acc_ok target st" "words_of st = words_of init_state @ map (stored_word marker) (filter_intervals marker intervals)"
    by blast
  from flush_ok [OF st(2)] obtain ps where "flush st = Inr ps" "\<forall>p \<in> set ps. phrase_ok target p"
    "concat (map phrase_words ps) = words_of st"
    by blast
  with st show ?thesis
    by (simp add: group_into_phrases_def words_of_def init_state_def)
qed

text \<open>
  Claim C1. Whatever the intervals and the parameters, \<open>group_into_phrases\<close> returns a
  list of phrases, and the word lists of the phrases, put one after the other in the order
  of the phrases, are the filtered words in their input order: none is lost, repeated or
  moved. Each word is stored with its times and its marker flag unchanged and with its
  text cleaned by \<open>stored_word\<close>. No phrase is empty.
\<close>

theorem phrases_partition_filtered_words:
  "\<exists>ps. group_into_phrases intervals marker min_gap target = Inr ps \<and>
     concat (map phrase_words ps) = map (stored_word marker) (filter_intervals marker intervals) \<and>
     map (\<lambda>w. (word_start w, word_end w, word_has_marker w)) (concat (map phrase_words ps)) =
       map (\<lambda>w. (word_start w, word_end w, word_has_marker w)) (filter_intervals marker intervals) \<and>
     [] \<notin> set (map phrase_words ps)"
proof -
  from group_into_phrases_returns [of intervals marker min_gap target]
  obtain ps where ps: "group_into_phrases intervals marker min_gap target = Inr ps"
    "\<forall>p \<in> set ps. phrase_ok target p"
    "concat (map phrase_words ps) = map (stored_word marker) (filter_intervals marker intervals)"
    by blast
  from ps(2) have nonempty: "[] \<notin> set (map phrase_words ps)"
    by (auto simp: phrase_ok_def)
  have "map (\<lambda>w. (word_start w, word_end w, word_has_marker w)) (map (stored_word marker) ws) =
        map (\<lambda>w. (word_start w, word_end w, word_has_marker w)) ws" for ws
    by (induction ws) (auto simp: stored_word_def)
  with ps(1,3) nonempty show ?thesis by simp
qed

text \<open>The definitions that a run on concrete intervals unfolds.\<close>

lemmas run_defs = group_into_phrases_def init_state_def flush_def phrase_marker_condition_def
  duration_condition_def stored_word_def py_strip_def py_isspace_def py_replace_def
  rewrite_last_def









text \<open>
  Claim C4, as stated, fails. The text \<open>" <p:> "\<close> strips to the silence token, and its
  interval is kept: the code compares the text as it came with the token. The interval
  becomes a phrase of its own.
\<close>

theorem padded_silence_token_retained:
  "py_strip '' <p:> '' = ''<p:>'' \<and>
   filter_intervals ''<eps>'' [(0, 1, '' <p:> '')] = [(0, 1, '' <p:> '', False)] \<and>
   group_into_phrases [(0, 1, '' <p:> '')] ''<eps>'' 2 5 = Inr [(0, 1, [(0, 1, ''<p:>'', False)])]"
  by (simp add: run_defs)

text \<open>
  Claim C4, amended. The first loop keeps, in order, exactly the intervals whose stripped
  text is not empty and whose text as it came is not the silence token, and gives each
  of them the flag saying whether the marker is a substring of that text
  (\<open>sublist marker text\<close>: the text is some prefix, then the marker, then some suffix).
\<close>

theorem filter_intervals_keeps:
  "filter_intervals marker intervals =
     map (\<lambda>(start, end, text). (start, end, text, sublist marker text))
       (filter (\<lambda>(start, end, text). py_strip text \<noteq> [] \<and> text \<noteq> ''<p:>'') intervals)"
  by (induction marker intervals rule: filter_intervals.induct) (auto simp: py_in_iff_sublist)

lemma filter_intervals_all_silent:
  "\<forall>(start, end, text) \<in> set intervals. py_strip text = [] \<or> text = ''<p:>'' \<Longrightarrow>
   filter_intervals marker intervals = []"
  by (induction marker intervals rule: filter_intervals.induct) auto

text \<open>
  Claim C8. When every interval of the tier has a text that strips to nothing or is the
  silence token, \<open>group_into_phrases\<close> returns no phrase and \<open>create_ass_file\<close> writes
  the header and nothing else, whatever the time shift, also when none was given; and
  \<open>main\<close> on such a tier ends with the header written to the output path.
\<close>

theorem all_silent_tier_gives_header_only:
  assumes "\<forall>(start, end, text) \<in> set intervals. py_strip text = [] \<or> text = ''<p:>''"
  shows "group_into_phrases intervals marker min_gap target = Inr [] \<and>
    create_ass_file intervals style_name marker min_gap target shift = Inr (header style_name) \<and>
    (map_of tiers (arg_tier (parse_args cl)) = Some intervals \<longrightarrow>
       main cl tiers = Inr (Written (cl_output cl) (header (arg_style (parse_args cl)))))"
proof -
  from assms have "filter_intervals m intervals = []" for m
    by (rule filter_intervals_all_silent)
  then have g: "group_into_phrases intervals m g t = Inr []" for m g t
    by (simp add: group_into_phrases_def flush_def init_state_def)
  then have c: "create_ass_file intervals sn m g t sh = Inr (header sn)" for sn m g t sh
    by (simp add: create_ass_file_def)
  show ?thesis
    by (simp add: g c main_def Let_def) (simp add: parse_args_def)
qed

text \<open>A tier of an empty text, the silence token and a text of two spaces.\<close>

theorem all_silent_tier_gives_header_only_witness:
  "py_strip '''' = [] \<and> py_strip ''  '' = [] \<and>
   group_into_phrases [(0, 1, ''''), (1, 2, ''<p:>''), (2, 3, ''  '')] ''<eps>'' 2 5 = Inr [] \<and>
   create_ass_file [(0, 1, ''''), (1, 2, ''<p:>''), (2, 3, ''  '')] ''Default'' ''<eps>'' 2 5 None
     = Inr (header ''Default'') \<and>
   main \<lparr>cl_input = ''in.TextGrid'', cl_output = ''out.ass'', cl_tier = None, cl_style = None,
          cl_phrase_marker = None, cl_min_phrase_gap = None, cl_target_duration = None,
          cl_shift_time = None\<rparr>
        [(''words'', [(0, 1, ''''), (1, 2, ''<p:>''), (2, 3, ''  '')])]
     = Inr (Written ''out.ass'' (header ''Default''))"
proof -
  let ?ivs = "[(0, 1, ''''), (1, 2, ''<p:>''), (2, 3, ''  '')] :: interval list"
  let ?cl = "\<lparr>cl_input = ''in.TextGrid'', cl_output = ''out.ass'', cl_tier = None, cl_style = None,
          cl_phrase_marker = None, cl_min_phrase_gap = None, cl_target_duration = None,
          cl_shift_time = None\<rparr>"
  have silent: "\<forall>(start, end, text) \<in> set ?ivs. py_strip text = [] \<or> text = ''<p:>''"
    by (simp add: py_strip_def py_isspace_def)
  have strips: "py_strip '''' = [] \<and> py_strip ''  '' = []"
    by (simp add: py_strip_def py_isspace_def)
  from all_silent_tier_gives_header_only
         [OF silent, of "''<eps>''" 2 5 "''Default''" None "[(''words'', ?ivs)]" ?cl] strips
  show ?thesis by (simp add: parse_args_def)
qed

subsection \<open>Rounding to an integer\<close>

text \<open>The rounding is within a half of its argument, and keeps the integers.\<close>

lemma round_half_even_upper: "of_int (round_half_even r) \<le> r + 1 / 2"
  unfolding round_half_even_def Let_def by (auto; linarith)

lemma round_half_even_lower: "r - 1 / 2 \<le> of_int (round_half_even r)"
  unfolding round_half_even_def Let_def by (auto; linarith)

lemma round_half_even_of_int: "round_half_even (of_int n) = n"
  by (simp add: round_half_even_def)

lemma round_half_even_nonneg: "0 \<le> r \<Longrightarrow> 0 \<le> round_half_even r"
  using round_half_even_lower [of r] by linarith

lemma round_half_even_le: "r \<le> of_int n \<Longrightarrow> round_half_even r \<le> n"
  using round_half_even_upper [of r] by linarith

lemma round_half_even_less: "r < of_int n - 1 / 2 \<Longrightarrow> round_half_even r \<le> n - 1"
  using round_half_even_upper [of r] by linarith

subsection \<open>The binade\<close>

lemma floor_log2_eq:
  assumes "2 powi e \<le> y" and "y < 2 powi (e + 1)"
  shows "\<lfloor>log 2 y\<rfloor> = e"
proof -
  have "(0::real) < 2 powi e" by simp
  with assms(1) have pos: "0 < y" by linarith
  have a: "(2::real) powr of_int e = 2 powi e"
    by (simp add: powr_real_of_int')
  have "(2::real) powr of_int (e + 1) = 2 powi (e + 1)"
    by (rule powr_real_of_int') simp_all
  then have b: "(2::real) powr (of_int e + 1) = 2 powi (e + 1)"
    by simp
  from assms a b have "2 powr of_int e \<le> y \<and> y < 2 powr (of_int e + 1)"
    by simp
  with pos show ?thesis
    by (simp add: floor_log_eq_powr_iff)
qed

lemma floor_log2_bounds:
  assumes "0 < y"
  shows "2 powi \<lfloor>log 2 y\<rfloor> \<le> y" and "y < 2 powi (\<lfloor>log 2 y\<rfloor> + 1)"
proof -
  have a: "(2::real) powr of_int \<lfloor>log 2 y\<rfloor> = 2 powi \<lfloor>log 2 y\<rfloor>"
    by (simp add: powr_real_of_int')
  have "(2::real) powr of_int (\<lfloor>log 2 y\<rfloor> + 1) = 2 powi (\<lfloor>log 2 y\<rfloor> + 1)"
    by (rule powr_real_of_int') simp_all
  then have b: "(2::real) powr (of_int \<lfloor>log 2 y\<rfloor> + 1) = 2 powi (\<lfloor>log 2 y\<rfloor> + 1)"
    by simp
  from assms have "2 powr of_int \<lfloor>log 2 y\<rfloor> \<le> y \<and> y < 2 powr (of_int \<lfloor>log 2 y\<rfloor> + 1)"
    using floor_log_eq_powr_iff [of y 2 "\<lfloor>log 2 y\<rfloor>"] by simp
  with a b show "2 powi \<lfloor>log 2 y\<rfloor> \<le> y" and "y < 2 powi (\<lfloor>log 2 y\<rfloor> + 1)"
    by simp_all
qed

lemma binade_eq:
  assumes "2 powi e \<le> \<bar>x\<bar>" and "\<bar>x\<bar> < 2 powi (e + 1)" and "- 1022 \<le> e"
  shows "binade x = e"
  using floor_log2_eq [OF assms(1,2)] assms(3) by (simp add: binade_def)

lemma binade_ge: "- 1022 \<le> binade x"
  by (simp add: binade_def)

lemma binade_upper:
  assumes "x \<noteq> 0"
  shows "\<bar>x\<bar> < 2 powi (binade x + 1)"
proof -
  from assms have "\<bar>x\<bar> < 2 powi (\<lfloor>log 2 \<bar>x\<bar>\<rfloor> + 1)"
    by (intro floor_log2_bounds) simp
  also have "\<dots> \<le> 2 powi (binade x + 1)"
    by (rule power_int_increasing) (simp_all add: binade_def)
  finally show ?thesis .
qed

lemma binade_lower:
  assumes "x \<noteq> 0" and "binade x \<noteq> - 1022"
  shows "2 powi (binade x) \<le> \<bar>x\<bar>"
proof -
  from assms(2) have "binade x = \<lfloor>log 2 \<bar>x\<bar>\<rfloor>"
    by (simp add: binade_def max_def split: if_splits)
  with floor_log2_bounds(1) [of "\<bar>x\<bar>"] assms(1) show ?thesis by simp
qed

lemma binade_le:
  assumes "\<bar>x\<bar> < 2 powi (e + 1)" and "- 1022 \<le> e" and "x \<noteq> 0"
  shows "binade x \<le> e"
proof (rule ccontr)
  assume "\<not> binade x \<le> e"
  then have gt: "e + 1 \<le> binade x" by simp
  with assms(2) have "binade x \<noteq> - 1022" by simp
  from binade_lower [OF assms(3) this] have "2 powi (binade x) \<le> \<bar>x\<bar>" .
  moreover from gt have "(2::real) powi (e + 1) \<le> 2 powi (binade x)"
    by (rule power_int_increasing) simp
  ultimately show False using assms(1) by linarith
qed

subsection \<open>Rounding to a double\<close>

lemma fl_val:
  assumes "2 powi e \<le> \<bar>x\<bar>" and "\<bar>x\<bar> < 2 powi (e + 1)" and "- 1022 \<le> e"
    and "round_half_even (x / 2 powi (e - 52)) = n"
  shows "fl x = of_int n * 2 powi (e - 52)"
proof -
  have "(0::real) < 2 powi e" by simp
  with assms(1) have "0 < \<bar>x\<bar>" by linarith
  then have "x \<noteq> 0" by simp
  with binade_eq [OF assms(1-3)] assms(4) show ?thesis
    by (simp add: fl_def)
qed

lemma fl_nonneg:
  assumes "0 \<le> x"
  shows "0 \<le> fl x"
proof (cases "x = 0")
  case True
  then show ?thesis by (simp add: fl_def)
next
  case False
  from assms have "0 \<le> x / 2 powi (binade x - 52)" by simp
  then have "0 \<le> round_half_even (x / 2 powi (binade x - 52))"
    by (rule round_half_even_nonneg)
  with False show ?thesis by (simp add: fl_def)
qed

lemma fl_error:
  "\<bar>fl x - x\<bar> \<le> 2 powi (binade x - 53)"
proof (cases "x = 0")
  case True
  then show ?thesis by (simp add: fl_def)
next
  case False
  let ?q = "(2::real) powi (binade x - 52)"
  let ?n = "round_half_even (x / ?q)"
  have q: "0 < ?q" by simp
  have "\<bar>of_int ?n - x / ?q\<bar> \<le> 1 / 2"
    using round_half_even_upper [of "x / ?q"] round_half_even_lower [of "x / ?q"] by linarith
  then have "\<bar>of_int ?n - x / ?q\<bar> * ?q \<le> 1 / 2 * ?q"
    using q by (intro mult_right_mono) simp_all
  moreover have "\<bar>of_int ?n - x / ?q\<bar> * ?q = \<bar>of_int ?n * ?q - x\<bar>"
  proof -
    have "\<bar>of_int ?n - x / ?q\<bar> * ?q = \<bar>(of_int ?n - x / ?q) * ?q\<bar>"
      using q by (simp add: abs_mult)
    also have "(of_int ?n - x / ?q) * ?q = of_int ?n * ?q - x"
      using q by (simp add: field_simps)
    finally show ?thesis .
  qed
  moreover have "1 / 2 * ?q = 2 powi (binade x - 53)"
  proof -
    have "(2::real) powi (binade x - 52) = 2 powi ((binade x - 53) + 1)" by simp
    also have "\<dots> = 2 powi (binade x - 53) * 2"
      by (subst power_int_add) simp_all
    finally show ?thesis by simp
  qed
  ultimately show ?thesis using False by (simp add: fl_def)
qed


subsection \<open>Doubles\<close>

lemma grid_coarsen:
  assumes "k \<le> kx"
  shows "of_int N * 2 powi kx = of_int (N * 2 ^ nat (kx - k)) * (2::real) powi k"
proof -
  define j where "j = nat (kx - k)"
  from assms have kx: "kx = k + int j" by (simp add: j_def)
  have "(2::real) powi (k + int j) = 2 powi k * 2 powi int j"
    by (rule power_int_add) simp
  then have "(2::real) powi kx = 2 powi k * 2 ^ j"
    by (simp add: kx)
  then show ?thesis
    unfolding j_def [symmetric] by simp
qed

lemma fl_exact:
  assumes "y = of_int m * 2 powi k" and "- 1074 \<le> k" and "\<bar>y\<bar> < 2 powi (53 + k)"
  shows "fl y = y"
proof (cases "y = 0")
  case True
  then show ?thesis by (simp add: fl_def)
next
  case False
  let ?e = "binade y"
  have le: "?e - 52 \<le> k"
  proof (cases "?e = - 1022")
    case True
    with assms(2) show ?thesis by simp
  next
    case ne: False
    from binade_lower [OF False ne] assms(3) have lt: "(2::real) powi ?e < 2 powi (53 + k)"
      by linarith
    have "?e < 53 + k"
    proof (rule ccontr)
      assume "\<not> ?e < 53 + k"
      then have "(2::real) powi (53 + k) \<le> 2 powi ?e"
        by (intro power_int_increasing) simp_all
      with lt show False by linarith
    qed
    then show ?thesis by simp
  qed
  define M where "M = m * 2 ^ nat (k - (?e - 52))"
  from assms(1) grid_coarsen [OF le, of m]
  have y: "y = of_int M * 2 powi (?e - 52)" by (simp add: M_def)
  have "of_int M * 2 powi (?e - 52) / 2 powi (?e - 52) = (of_int M :: real)"
    by simp
  with y have "y / 2 powi (?e - 52) = of_int M"
    by simp
  then have "round_half_even (y / 2 powi (?e - 52)) = M"
    by (simp only: round_half_even_of_int)
  with False y show ?thesis by (simp add: fl_def)
qed

lemma fl_grid:
  assumes "fl x = x"
  shows "\<exists>N. x = of_int N * 2 powi (binade x - 52)"
proof (cases "x = 0")
  case True
  then have "x = of_int 0 * 2 powi (binade x - 52)" by simp
  then show ?thesis by blast
next
  case False
  with assms have "x = of_int (round_half_even (x / 2 powi (binade x - 52))) * 2 powi (binade x - 52)"
    by (simp add: fl_def)
  then show ?thesis by blast
qed

text \<open>The remainder of a double modulo 60 (or 3600) is a double.\<close>

lemma remainder_is_double:
  assumes "fl x = x" and "0 \<le> s" and "s \<le> x" and "s < 2 powi 55"
    and "s = x - of_int (4 * c) * of_int n"
  shows "fl s = s"
proof -
  from fl_grid [OF assms(1)] obtain N where N: "x = of_int N * 2 powi (binade x - 52)"
    by blast
  let ?kx = "binade x - 52"
  let ?k = "min ?kx 2"
  have k1: "?k \<le> ?kx" and k2: "?k \<le> 2" by simp_all
  have x: "x = of_int (N * 2 ^ nat (?kx - ?k)) * 2 powi ?k"
    using N grid_coarsen [OF k1, of N] by simp
  have "of_int (4 * c) * of_int n = of_int (c * n) * (2::real) powi 2"
    by simp
  also have "\<dots> = of_int (c * n * 2 ^ nat (2 - ?k)) * 2 powi ?k"
    by (rule grid_coarsen [OF k2])
  finally have cn: "of_int (4 * c) * of_int n = of_int (c * n * 2 ^ nat (2 - ?k)) * (2::real) powi ?k" .
  have "s = of_int (N * 2 ^ nat (?kx - ?k)) * 2 powi ?k - of_int (c * n * 2 ^ nat (2 - ?k)) * 2 powi ?k"
    using assms(5) x cn by simp
  also have "\<dots> = of_int (N * 2 ^ nat (?kx - ?k) - c * n * 2 ^ nat (2 - ?k)) * 2 powi ?k"
    by (simp add: algebra_simps)
  finally have grid: "s = of_int (N * 2 ^ nat (?kx - ?k) - c * n * 2 ^ nat (2 - ?k)) * 2 powi ?k" .
  have low: "- 1074 \<le> ?k"
    using binade_ge [of x] by simp
  have small: "\<bar>s\<bar> < 2 powi (53 + ?k)"
  proof (cases "?kx \<le> 2")
    case True
    then have k: "?k = ?kx" by simp
    show ?thesis
    proof (cases "x = 0")
      case True
      with assms(2,3) show ?thesis by simp
    next
      case False
      from binade_upper [OF False] assms(2,3) have "\<bar>s\<bar> < 2 powi (binade x + 1)" by linarith
      then show ?thesis by (simp add: k add.commute)
    qed
  next
    case False
    then have "?k = 2" by simp
    with assms(2,4) show ?thesis by simp
  qed
  from fl_exact [OF grid low small] show ?thesis .
qed

text \<open>The fractional part of a double is a double, and the largest below 1 is
  \<open>1 - 2 powi (- 53)\<close>.\<close>

lemma fraction_is_double:
  assumes "fl s = s" and "0 \<le> s"
  defines "t \<equiv> s - of_int \<lfloor>s\<rfloor>"
  shows "fl t = t" and "t \<le> 1 - 2 powi (- 53)"
proof -
  from fl_grid [OF assms(1)] obtain N where N: "s = of_int N * 2 powi (binade s - 52)"
    by blast
  let ?ks = "binade s - 52"
  let ?k = "min ?ks 0"
  have k1: "?k \<le> ?ks" and k2: "?k \<le> 0" by simp_all
  have t0: "0 \<le> t" and t1: "t < 1" unfolding t_def by linarith+
  have ts: "t \<le> s" unfolding t_def using assms(2) by simp
  have s: "s = of_int (N * 2 ^ nat (?ks - ?k)) * 2 powi ?k"
    using N grid_coarsen [OF k1, of N] by simp
  have "of_int \<lfloor>s\<rfloor> = of_int \<lfloor>s\<rfloor> * (2::real) powi 0" by simp
  also have "\<dots> = of_int (\<lfloor>s\<rfloor> * 2 ^ nat (0 - ?k)) * 2 powi ?k"
    by (rule grid_coarsen [OF k2])
  finally have fs: "of_int \<lfloor>s\<rfloor> = of_int (\<lfloor>s\<rfloor> * 2 ^ nat (0 - ?k)) * (2::real) powi ?k" .
  have "t = of_int (N * 2 ^ nat (?ks - ?k)) * 2 powi ?k - of_int (\<lfloor>s\<rfloor> * 2 ^ nat (0 - ?k)) * 2 powi ?k"
    unfolding t_def using s fs by simp
  also have "\<dots> = of_int (N * 2 ^ nat (?ks - ?k) - \<lfloor>s\<rfloor> * 2 ^ nat (0 - ?k)) * 2 powi ?k"
    by (simp add: algebra_simps)
  finally have grid: "t = of_int (N * 2 ^ nat (?ks - ?k) - \<lfloor>s\<rfloor> * 2 ^ nat (0 - ?k)) * 2 powi ?k" .
  have low: "- 1074 \<le> ?k"
    using binade_ge [of s] by simp
  have below: "t < 2 powi (53 + ?k)"
  proof (cases "?ks \<le> 0")
    case True
    then have k: "?k = ?ks" by simp
    show ?thesis
    proof (cases "s = 0")
      case True
      then show ?thesis by (simp add: t_def)
    next
      case False
      from binade_upper [OF False] assms(2) ts have "t < 2 powi (binade s + 1)" by linarith
      then show ?thesis by (simp add: k add.commute)
    qed
  next
    case False
    then have "?k = 0" by simp
    with t1 show ?thesis by simp
  qed
  with t0 have small: "\<bar>t\<bar> < 2 powi (53 + ?k)" by simp
  from fl_exact [OF grid low small] show "fl t = t" .
  show "t \<le> 1 - 2 powi (- 53)"
  proof (cases "- 53 \<le> ?k")
    case True
    define m where "m = N * 2 ^ nat (?ks - ?k) - \<lfloor>s\<rfloor> * 2 ^ nat (0 - ?k)"
    define j where "j = m * 2 ^ nat (?k - - 53)"
    from grid grid_coarsen [OF True, of m]
    have g: "t = of_int j * 2 powi (- 53)" by (simp add: m_def j_def)
    from g t1 have "of_int j * (2::real) powi (- 53) < 1" by simp
    then have "real_of_int j < of_int (2 ^ 53)"
      by (simp add: power_int_minus field_simps)
    then have "j < 2 ^ 53" by (simp only: of_int_less_iff)
    then have "j \<le> 2 ^ 53 - 1" by simp
    then have "real_of_int j \<le> of_int (2 ^ 53 - 1)" by (simp only: of_int_le_iff)
    then have "of_int j * (2::real) powi (- 53) \<le> of_int (2 ^ 53 - 1) * 2 powi (- 53)"
      by (intro mult_right_mono) simp_all
    also have "\<dots> = 1 - 2 powi (- 53)"
      by (simp add: power_int_minus field_simps)
    finally show ?thesis using g by simp
  next
    case False
    then have "53 + ?k \<le> - 1" by simp
    then have "(2::real) powi (53 + ?k) \<le> 2 powi (- 1)"
      by (intro power_int_increasing) simp_all
    with below have "t < 1 / 2" by (simp add: power_int_minus)
    moreover have "(1::real) / 2 \<le> 1 - 2 powi (- 53)"
      by (simp add: power_int_minus)
    ultimately show ?thesis by linarith
  qed
qed

lemma fl_centiseconds_below_100:
  assumes "0 \<le> t" and "t \<le> 1 - 2 powi (- 53)"
  shows "fl (t * 100) < 100"
proof (cases "t * 100 < 64")
  case True
  show ?thesis
  proof (cases "t = 0")
    case True
    then show ?thesis by (simp add: fl_def)
  next
    case False
    with assms(1) True have "\<bar>t * 100\<bar> < 2 powi (5 + 1)" by simp
    then have "binade (t * 100) \<le> 5"
      by (rule binade_le) (use False in simp_all)
    then have "(2::real) powi (binade (t * 100) - 53) \<le> 2 powi (- 48)"
      by (intro power_int_increasing) simp_all
    with fl_error [of "t * 100"] have "fl (t * 100) \<le> t * 100 + 2 powi (- 48)"
      by linarith
    also have "\<dots> < 64 + 1" using True by (simp add: power_int_minus)
    finally show ?thesis by simp
  qed
next
  case False
  then have lo: "2 powi 6 \<le> \<bar>t * 100\<bar>" using assms(1) by simp
  from assms(2) have "t * 100 \<le> 100 - 100 * 2 powi (- 53)" by simp
  then have hi': "t * 100 \<le> 100 - 100 / 2 ^ 53" by (simp add: power_int_minus field_simps)
  then have hi: "\<bar>t * 100\<bar> < 2 powi (6 + 1)" using assms(1) by simp
  have e: "binade (t * 100) = 6"
    by (rule binade_eq [OF lo hi]) simp
  have ne: "t * 100 \<noteq> 0" using False by simp
  let ?r = "t * 100 / 2 powi (6 - 52)"
  have "?r = t * 100 * 2 ^ 46" by (simp add: power_int_minus field_simps)
  also from hi' have "\<dots> \<le> (100 - 100 / 2 ^ 53) * 2 ^ 46"
    by (intro mult_right_mono) simp_all
  also have "\<dots> < of_int (100 * 2 ^ 46) - 1 / 2" by simp
  finally have "?r < of_int (100 * 2 ^ 46) - 1 / 2" .
  then have "round_half_even ?r \<le> 100 * 2 ^ 46 - 1"
    by (rule round_half_even_less)
  then have "real_of_int (round_half_even ?r) \<le> of_int (100 * 2 ^ 46 - 1)"
    by (simp only: of_int_le_iff)
  then have "of_int (round_half_even ?r) * (2::real) powi (6 - 52)
      \<le> of_int (100 * 2 ^ 46 - 1) * 2 powi (6 - 52)"
    by (intro mult_right_mono) simp_all
  also have "\<dots> < 100" by (simp add: power_int_minus field_simps)
  finally show ?thesis using ne e by (simp add: fl_def)
qed

lemma fl_zero: "fl 0 = 0"
  by (simp add: fl_def)

text \<open>A double below 3600 is at least one step of its binade below.\<close>

lemma double_below_3600:
  assumes "fl r = r" and "0 \<le> r" and "r < 3600"
  shows "r \<le> 3600 - 2 powi (- 41)"
proof (cases "r < 2048")
  case True
  have "(2048::real) \<le> 3600 - 2 powi (- 41)" by (simp add: power_int_minus)
  with True show ?thesis by linarith
next
  case False
  then have ne: "r \<noteq> 0" by simp
  from False assms(2) have lo: "2 powi 11 \<le> \<bar>r\<bar>" by simp
  from assms(2,3) have hi: "\<bar>r\<bar> < 2 powi (11 + 1)" by simp
  have e: "binade r = 11"
    by (rule binade_eq [OF lo hi]) simp
  from fl_grid [OF assms(1)] obtain N where "r = of_int N * 2 powi (binade r - 52)"
    by blast
  then have g: "r = of_int N * 2 powi (- 41)" by (simp add: e)
  with assms(3) have "of_int N * (2::real) powi (- 41) < 3600" by simp
  then have "real_of_int N < of_int (3600 * 2 ^ 41)"
    by (simp add: power_int_minus field_simps)
  then have "N < 3600 * 2 ^ 41" by (simp only: of_int_less_iff)
  then have "N \<le> 3600 * 2 ^ 41 - 1" by simp
  then have "real_of_int N \<le> of_int (3600 * 2 ^ 41 - 1)" by (simp only: of_int_le_iff)
  then have "of_int N * (2::real) powi (- 41) \<le> of_int (3600 * 2 ^ 41 - 1) * 2 powi (- 41)"
    by (intro mult_right_mono) simp_all
  also have "\<dots> = 3600 - 2 powi (- 41)"
    by (simp add: power_int_minus field_simps)
  finally show ?thesis using g by simp
qed

text \<open>The minutes, a remainder below 3600 divided by 60, stay below 60 when rounded.\<close>

lemma fl_minutes_below_60:
  assumes "0 \<le> r" and "r \<le> 3600 - 2 powi (- 41)"
  shows "fl (r / 60) < 60"
proof (cases "r / 60 < 32")
  case True
  show ?thesis
  proof (cases "r = 0")
    case True
    then show ?thesis by (simp add: fl_def)
  next
    case False
    with assms(1) True have "\<bar>r / 60\<bar> < 2 powi (4 + 1)" by simp
    then have "binade (r / 60) \<le> 4"
      by (rule binade_le) (use False in simp_all)
    then have "(2::real) powi (binade (r / 60) - 53) \<le> 2 powi (- 49)"
      by (intro power_int_increasing) simp_all
    with fl_error [of "r / 60"] have "fl (r / 60) \<le> r / 60 + 2 powi (- 49)"
      by linarith
    also have "\<dots> < 32 + 1" using True by (simp add: power_int_minus)
    finally show ?thesis by simp
  qed
next
  case False
  then have lo: "2 powi 5 \<le> \<bar>r / 60\<bar>" using assms(1) by simp
  from assms(2) have hi': "r \<le> 3600 - 1 / 2 ^ 41" by (simp add: power_int_minus)
  then have "r / 60 < 64" by simp
  then have hi: "\<bar>r / 60\<bar> < 2 powi (5 + 1)" using assms(1) by simp
  have e: "binade (r / 60) = 5"
    by (rule binade_eq [OF lo hi]) simp
  have ne: "r / 60 \<noteq> 0" using False by simp
  let ?q = "r / 60 / 2 powi (5 - 52)"
  have "?q = r * (2 ^ 47 / 60)" by (simp add: power_int_minus field_simps)
  also from hi' have "\<dots> \<le> (3600 - 1 / 2 ^ 41) * (2 ^ 47 / 60)"
    by (intro mult_right_mono) simp_all
  also have "\<dots> < of_int (60 * 2 ^ 47) - 1 / 2" by simp
  finally have "?q < of_int (60 * 2 ^ 47) - 1 / 2" .
  then have "round_half_even ?q \<le> 60 * 2 ^ 47 - 1"
    by (rule round_half_even_less)
  then have "real_of_int (round_half_even ?q) \<le> of_int (60 * 2 ^ 47 - 1)"
    by (simp only: of_int_le_iff)
  then have "of_int (round_half_even ?q) * (2::real) powi (5 - 52)
      \<le> of_int (60 * 2 ^ 47 - 1) * 2 powi (5 - 52)"
    by (intro mult_right_mono) simp_all
  also have "\<dots> < 60" by (simp add: power_int_minus field_simps)
  finally show ?thesis using ne e by (simp add: fl_def)
qed

subsection \<open>The roundings of the examples\<close>

text \<open>
  Each line gives a real number and the double nearest to it, found in the binade \<open>e\<close>
  as the multiple \<open>n\<close> of \<open>2 powi (e - 52)\<close>.
\<close>

lemma fl_fact_1: "fl (1862839 / 500) = 256026642646827 / 68719476736"
  by (rule fl_val [where e = 11 and n = 8192852564698464, THEN trans])
     (simp_all add: round_half_even_def Let_def)

lemma fl_fact_2: "fl (85342214215609 / 82463372083200) = 4660822792361793 / 4503599627370496"
  by (rule fl_val [where e = 0 and n = 4660822792361793, THEN trans])
     (simp_all add: round_half_even_def Let_def)

lemma fl_fact_3: "fl (2878842132409 / 1374389534720) = 2358347474869453 / 1125899906842624"
  by (rule fl_val [where e = 1 and n = 4716694949738906, THEN trans])
     (simp_all add: round_half_even_def Let_def)

lemma fl_fact_4: "fl (46591805227 / 68719476736) = 46591805227 / 68719476736"
  by (rule fl_val [where e = "- 1" and n = 6106881094713344, THEN trans])
     (simp_all add: round_half_even_def Let_def)

lemma fl_fact_5: "fl (1164795130675 / 17179869184) = 1164795130675 / 17179869184"
  by (rule fl_val [where e = 6 and n = 4771000855244800, THEN trans])
     (simp_all add: round_half_even_def Let_def)

lemma fl_fact_6: "fl (59999 / 1000) = 8444108563831325 / 140737488355328"
  by (rule fl_val [where e = 5 and n = 8444108563831325, THEN trans])
     (simp_all add: round_half_even_def Let_def)

lemma fl_fact_7: "fl (337764342553253 / 20266198323167232) = 2401879769267577 / 144115188075855872"
  by (rule fl_val [where e = "- 6" and n = 4803759538535154, THEN trans])
     (simp_all add: round_half_even_def Let_def)

lemma fl_fact_8: "fl (1688821712766265 / 1688849860263936) = 9007049134753413 / 9007199254740992"
  by (rule fl_val [where e = "- 1" and n = 9007049134753413, THEN trans])
     (simp_all add: round_half_even_def Let_def)

lemma fl_fact_9: "fl (140596750866973 / 140737488355328) = 140596750866973 / 140737488355328"
  by (rule fl_val [where e = "- 1" and n = 8998192055486272, THEN trans])
     (simp_all add: round_half_even_def Let_def)

lemma fl_fact_10: "fl (3514918771674325 / 35184372088832) = 3514918771674325 / 35184372088832"
  by (rule fl_val [where e = 6 and n = 7029837543348650, THEN trans])
     (simp_all add: round_half_even_def Let_def)

lemma fl_fact_11: "fl (3 / 100) = 1080863910568919 / 36028797018963968"
  by (rule fl_val [where e = "- 6" and n = 8646911284551352, THEN trans])
     (simp_all add: round_half_even_def Let_def)

lemma fl_fact_12: "fl (1080863910568919 / 129703669268270284800) = 2459565876494607 / 295147905179352825856"
  by (rule fl_val [where e = "- 17" and n = 4919131752989214, THEN trans])
     (simp_all add: round_half_even_def Let_def)

lemma fl_fact_13: "fl (1080863910568919 / 2161727821137838080) = 1152921504606847 / 2305843009213693952"
  by (rule fl_val [where e = "- 11" and n = 4611686018427388, THEN trans])
     (simp_all add: round_half_even_def Let_def)

lemma fl_fact_14: "fl (1080863910568919 / 36028797018963968) = 1080863910568919 / 36028797018963968"
  by (rule fl_val [where e = "- 6" and n = 8646911284551352, THEN trans])
     (simp_all add: round_half_even_def Let_def)

lemma fl_fact_15: "fl (27021597764222975 / 9007199254740992) = 3"
  by (rule fl_val [where e = 1 and n = 6755399441055744, THEN trans])
     (simp_all add: round_half_even_def Let_def)

lemma fl_fact_16: "fl (1 / 3600) = 5124095576030431 / 18446744073709551616"
  by (rule fl_val [where e = "- 12" and n = 5124095576030431, THEN trans])
     (simp_all add: round_half_even_def Let_def)

lemma fl_fact_17: "fl (1 / 60) = 4803839602528529 / 288230376151711744"
  by (rule fl_val [where e = "- 6" and n = 4803839602528529, THEN trans])
     (simp_all add: round_half_even_def Let_def)

lemma fl_fact_18: "fl (1 / 1800) = 5124095576030431 / 9223372036854775808"
  by (rule fl_val [where e = "- 11" and n = 5124095576030431, THEN trans])
     (simp_all add: round_half_even_def Let_def)

lemma fl_fact_19: "fl (1 / 30) = 4803839602528529 / 144115188075855872"
  by (rule fl_val [where e = "- 5" and n = 4803839602528529, THEN trans])
     (simp_all add: round_half_even_def Let_def)

lemma fl_fact_20: "fl (1 / 3200) = 5764607523034235 / 18446744073709551616"
  by (rule fl_val [where e = "- 12" and n = 5764607523034235, THEN trans])
     (simp_all add: round_half_even_def Let_def)

lemma fl_fact_21: "fl (3 / 160) = 5404319552844595 / 288230376151711744"
  by (rule fl_val [where e = "- 6" and n = 5404319552844595, THEN trans])
     (simp_all add: round_half_even_def Let_def)

lemma fl_fact_22: "fl (1 / 8) = 1 / 8"
  by (rule fl_val [where e = "- 3" and n = 4503599627370496, THEN trans])
     (simp_all add: round_half_even_def Let_def)

lemma fl_fact_23: "fl (25 / 2) = 25 / 2"
  by (rule fl_val [where e = 3 and n = 7036874417766400, THEN trans])
     (simp_all add: round_half_even_def Let_def)

lemma fl_fact_24: "fl (1 / 5) = 3602879701896397 / 18014398509481984"
  by (rule fl_val [where e = "- 3" and n = 7205759403792794, THEN trans])
     (simp_all add: round_half_even_def Let_def)

lemma fl_fact_25: "fl (14411518807585587 / 18014398509481984) = 3602879701896397 / 4503599627370496"
  by (rule fl_val [where e = "- 1" and n = 7205759403792794, THEN trans])
     (simp_all add: round_half_even_def Let_def)

lemma fl_fact_26: "fl (90071992547409925 / 1125899906842624) = 80"
  by (rule fl_val [where e = 6 and n = 5629499534213120, THEN trans])
     (simp_all add: round_half_even_def Let_def)

lemma fl_fact_27: "fl (113 / 100) = 1272266894732165 / 1125899906842624"
  by (rule fl_val [where e = 0 and n = 5089067578928660, THEN trans])
     (simp_all add: round_half_even_def Let_def)

lemma fl_fact_28: "fl (146366987889541 / 1125899906842624) = 146366987889541 / 1125899906842624"
  by (rule fl_val [where e = "- 3" and n = 4683743612465312, THEN trans])
     (simp_all add: round_half_even_def Let_def)

lemma fl_fact_29: "fl (3659174697238525 / 281474976710656) = 3659174697238525 / 281474976710656"
  by (rule fl_val [where e = 3 and n = 7318349394477050, THEN trans])
     (simp_all add: round_half_even_def Let_def)

lemma fl_fact_30: "fl (1) = 1"
  by (rule fl_val [where e = 0 and n = 4503599627370496, THEN trans])
     (simp_all add: round_half_even_def Let_def)

lemma fl_fact_31: "fl (100) = 100"
  by (rule fl_val [where e = 6 and n = 7036874417766400, THEN trans])
     (simp_all add: round_half_even_def Let_def)

lemma fl_fact_32: "fl (3 / 2) = 3 / 2"
  by (rule fl_val [where e = 0 and n = 6755399441055744, THEN trans])
     (simp_all add: round_half_even_def Let_def)

lemma fl_fact_33: "fl (150) = 150"
  by (rule fl_val [where e = 7 and n = 5277655813324800, THEN trans])
     (simp_all add: round_half_even_def Let_def)

lemma fl_fact_34: "fl (9 / 8) = 9 / 8"
  by (rule fl_val [where e = 0 and n = 5066549580791808, THEN trans])
     (simp_all add: round_half_even_def Let_def)

lemma fl_fact_35: "fl (- (25 / 2)) = - (25 / 2)"
  by (rule fl_val [where e = 3 and n = "- 7036874417766400", THEN trans])
     (simp_all add: round_half_even_def Let_def)

lemma fl_fact_36: "fl (50) = 50"
  by (rule fl_val [where e = 5 and n = 7036874417766400, THEN trans])
     (simp_all add: round_half_even_def Let_def)

lemma fl_fact_37: "fl (- (5404319552844595 / 18014398509481984)) = - (5404319552844595 / 18014398509481984)"
  by (rule fl_val [where e = "- 2" and n = "- 5404319552844595", THEN trans])
     (simp_all add: round_half_even_def Let_def)

lemma fl_fact_38: "fl (8444108563831325 / 140737488355328) = 8444108563831325 / 140737488355328"
  by (rule fl_val [where e = 5 and n = 8444108563831325, THEN trans])
     (simp_all add: round_half_even_def Let_def)

lemma fl_fact_39: "fl (254453378946433 / 810647932926689280) = 2895114000457193 / 9223372036854775808"
  by (rule fl_val [where e = "- 12" and n = 5790228000914386, THEN trans])
     (simp_all add: round_half_even_def Let_def)

lemma fl_fact_40: "fl (254453378946433 / 13510798882111488) = 5428338750857237 / 288230376151711744"
  by (rule fl_val [where e = "- 6" and n = 5428338750857237, THEN trans])
     (simp_all add: round_half_even_def Let_def)

lemma fl_fact_41: "fl (- (29 / 100)) = - (5224175567749775 / 18014398509481984)"
  by (rule fl_val [where e = "- 2" and n = "- 5224175567749775", THEN trans])
     (simp_all add: round_half_even_def Let_def)

lemma fl_fact_42: "fl (130604389193744375 / 4503599627370496) = 8162774324609023 / 281474976710656"
  by (rule fl_val [where e = 4 and n = 8162774324609023, THEN trans])
     (simp_all add: round_half_even_def Let_def)

lemmas fl_facts = fl_zero fl_fact_1 fl_fact_2 fl_fact_3 fl_fact_4 fl_fact_5 fl_fact_6 fl_fact_7 fl_fact_8
  fl_fact_9 fl_fact_10 fl_fact_11 fl_fact_12 fl_fact_13 fl_fact_14 fl_fact_15 fl_fact_16
  fl_fact_17 fl_fact_18 fl_fact_19 fl_fact_20 fl_fact_21 fl_fact_22 fl_fact_23 fl_fact_24
  fl_fact_25 fl_fact_26 fl_fact_27 fl_fact_28 fl_fact_29 fl_fact_30 fl_fact_31 fl_fact_32
  fl_fact_33 fl_fact_34 fl_fact_35 fl_fact_36 fl_fact_37 fl_fact_38 fl_fact_39 fl_fact_40
  fl_fact_41 fl_fact_42

subsection \<open>The encoder\<close>

lemma karaoke_loop_append: "karaoke_loop i ws (a @ b) = a @ karaoke_loop i ws b"
  by (induction ws arbitrary: i b) (auto simp: Let_def)

lemma karaoke_loop_Cons:
  "karaoke_loop i (w # ws) [] = word_markup i w @ karaoke_loop (Suc i) ws []"
proof -
  obtain s e tx m where w: "w = (s, e, tx, m)" by (cases w) auto
  have "karaoke_loop i (w # ws) [] = karaoke_loop (Suc i) ws (word_markup i w @ [])"
    by (simp add: w Let_def word_markup_def)
  also have "\<dots> = word_markup i w @ karaoke_loop (Suc i) ws []"
    by (rule karaoke_loop_append)
  finally show ?thesis .
qed

lemma karaoke_loop_app:
  "karaoke_loop i (pre @ post) [] = karaoke_loop i pre [] @ karaoke_loop (i + length pre) post []"
  by (induction pre arbitrary: i) (simp_all add: karaoke_loop_Cons)

lemma py_int_floor: "0 \<le> x \<Longrightarrow> py_int x = \<lfloor>x\<rfloor>"
  by (simp add: py_int_def)

lemma word_markup_spec:
  assumes "word_start w \<le> word_end w"
  shows "word_markup i w = spec_word_markup (i = 0) w"
proof -
  obtain s e tx m where w: "w = (s, e, tx, m)" by (cases w) auto
  from assms w have "0 \<le> fl (e - s)" by (intro fl_nonneg) simp
  then have "0 \<le> fl (fl (e - s) * 100)" by (intro fl_nonneg) simp
  then have "py_int (fl (fl (e - s) * 100)) = \<lfloor>fl (fl (e - s) * 100)\<rfloor>" by (rule py_int_floor)
  then show ?thesis
    unfolding word_markup_def spec_word_markup_def w by simp
qed

lemma karaoke_loop_later:
  "\<forall>w \<in> set ws. word_start w \<le> word_end w \<Longrightarrow>
   karaoke_loop (Suc i) ws [] = concat (map (spec_word_markup False) ws)"
  by (induction ws arbitrary: i) (simp_all add: karaoke_loop_Cons word_markup_spec)

text \<open>
  Claim C5. For words that do not end before they start (the data model has
  \<open>start < end\<close>), \<open>create_karaoke_line\<close> gives what the specification describes:
  for each word in order the tag \<open>{\K<floor((end - start) * 100)>}\<close>, the text and one
  space, with one more space before the tag exactly when the word is not the first and
  has the marker, and nothing else. The difference and the product are those of doubles,
  each rounded to the nearest double, and the floor is taken of the rounded product. For
  a list of one word the line is the tag, the text and the space, whatever the marker
  flag.
\<close>

theorem create_karaoke_line_follows_spec:
  assumes "\<forall>w \<in> set ws. word_start w \<le> word_end w"
  shows "create_karaoke_line ws = spec_encode ws \<and>
    (ws = [(s, e, tx, m)] \<longrightarrow>
       create_karaoke_line ws = k_tag \<lfloor>fl (fl (e - s) * 100)\<rfloor> @ tx @ '' '')"
proof -
  have enc: "create_karaoke_line ws = spec_encode ws"
  proof (cases ws)
    case Nil
    then show ?thesis by (simp add: create_karaoke_line_def spec_encode_def)
  next
    case (Cons w rest)
    with assms show ?thesis
      by (simp add: create_karaoke_line_def spec_encode_def karaoke_loop_Cons
          word_markup_spec karaoke_loop_later)
  qed
  then show ?thesis
    by (auto simp: spec_encode_def spec_word_markup_def)
qed

text \<open>The definitions that the encoding of concrete words unfolds.\<close>

lemmas enc_defs = create_karaoke_line_def k_tag_def py_int_def str_int_def str_nat.simps
  digit_char_def

text \<open>
  Two words, the second with the marker; and a single word with the marker from 1 to the
  double nearest to 1.13, whose tag is \<open>{\K12}\<close>: the double is below 1.13, and so is
  the product below 13.
\<close>

theorem create_karaoke_line_follows_spec_witness:
  "create_karaoke_line [(0, 1, ''hello'', False), (1, 2.5, ''world'', True)] =
     spec_encode [(0, 1, ''hello'', False), (1, 2.5, ''world'', True)] \<and>
   spec_encode [(0, 1, ''hello'', False), (1, 2.5, ''world'', True)] =
     [CHR ''{'', CHR 0x5C] @ ''K100}hello  {'' @ [CHR 0x5C] @ ''K150}world '' \<and>
   (1::real) \<le> fl 1.13 \<and>
   create_karaoke_line [(1, fl 1.13, ''solo'', True)] =
     k_tag \<lfloor>fl (fl (fl 1.13 - 1) * 100)\<rfloor> @ ''solo '' \<and>
   create_karaoke_line [(1, fl 1.13, ''solo'', True)] = [CHR ''{'', CHR 0x5C] @ ''K12}solo ''"
proof -
  have a: "\<forall>w \<in> set [(0, 1, ''hello'', False), (1, 2.5, ''world'', True)]. word_start w \<le> word_end w"
    by simp
  have b: "\<forall>w \<in> set [(1, fl 1.13, ''solo'', True)]. word_start w \<le> word_end w"
    by (simp add: fl_facts)
  have c: "create_karaoke_line [(0, 1, ''hello'', False), (1, 2.5, ''world'', True)] =
     [CHR ''{'', CHR 0x5C] @ ''K100}hello  {'' @ [CHR 0x5C] @ ''K150}world ''"
    by (simp add: enc_defs fl_facts)
  have d: "create_karaoke_line [(1, fl 1.13, ''solo'', True)] = [CHR ''{'', CHR 0x5C] @ ''K12}solo ''"
    by (simp add: enc_defs fl_facts)
  have e: "(1::real) \<le> fl 1.13"
    by (simp add: fl_facts)
  have f: "k_tag \<lfloor>fl (fl (fl 1.13 - 1) * 100)\<rfloor> = [CHR ''{'', CHR 0x5C] @ ''K12}''"
    by (simp add: enc_defs fl_facts)
  from create_karaoke_line_follows_spec [OF a, of 0 0 "[]" False]
       create_karaoke_line_follows_spec [OF b, of 1 "fl 1.13" "''solo''" True] c d e f
  show ?thesis by simp
qed

subsection \<open>The time format\<close>

lemma fmt_02d_two_digits:
  assumes "0 \<le> n" and "n < 100"
  shows "fmt_02d n = two_digits n"
proof (cases "n < 10")
  case True
  with assms have "str_nat (nat n) = [digit_char (nat n)]"
    by (subst str_nat.simps) simp
  moreover from True assms have "n div 10 = 0" "n mod 10 = n" by simp_all
  ultimately show ?thesis
    using assms by (simp add: fmt_02d_def two_digits_def digit_char_def)
next
  case False
  with assms have small: "nat n div 10 < 10" by auto
  from False assms have "str_nat (nat n) = str_nat (nat n div 10) @ [digit_char (nat n mod 10)]"
    by (subst str_nat.simps) simp
  also from small have "str_nat (nat n div 10) = [digit_char (nat n div 10)]"
    by (subst str_nat.simps) simp
  finally have "str_nat (nat n) = [digit_char (nat n div 10), digit_char (nat n mod 10)]"
    by simp
  moreover from assms have "nat n div 10 = nat (n div 10)" "nat n mod 10 = nat (n mod 10)"
    by (simp_all add: nat_div_distrib nat_mod_distrib)
  ultimately show ?thesis
    using assms by (simp add: fmt_02d_def two_digits_def)
qed

text \<open>The remainder of a time that is not negative: no sign to mend.\<close>

lemma py_mod_nonneg:
  assumes "0 \<le> x" and "0 < m"
  shows "py_mod x m = x - m * of_int \<lfloor>x / m\<rfloor>" and "0 \<le> py_mod x m" and "py_mod x m < m"
proof -
  from assms have q: "py_int (x / m) = \<lfloor>x / m\<rfloor>"
    by (simp add: py_int_def)
  from assms(2) have "m * of_int \<lfloor>x / m\<rfloor> \<le> m * (x / m)"
    by (intro mult_left_mono) simp_all
  with assms(2) have lo: "0 \<le> x - m * of_int \<lfloor>x / m\<rfloor>" by simp
  have "x / m < of_int \<lfloor>x / m\<rfloor> + 1" by linarith
  with assms(2) have "m * (x / m) < m * (of_int \<lfloor>x / m\<rfloor> + 1)"
    by (intro mult_strict_left_mono)
  with assms(2) have hi: "x - m * of_int \<lfloor>x / m\<rfloor> < m"
    by (simp add: algebra_simps)
  from lo assms(2) show eq: "py_mod x m = x - m * of_int \<lfloor>x / m\<rfloor>"
    by (simp add: py_mod_def Let_def q)
  from lo hi show "0 \<le> py_mod x m" and "py_mod x m < m"
    by (simp_all add: eq)
qed

text \<open>The four numbers of \<open>format_time\<close> for a double that is not negative.\<close>

lemma format_time_parts:
  assumes "0 \<le> x" and "fl x = x"
  shows "py_int (fl (x / 3600)) = \<lfloor>fl (x / 3600)\<rfloor>"
    and "py_int (fl (py_mod x 3600 / 60)) = \<lfloor>fl ((x - 3600 * of_int \<lfloor>x / 3600\<rfloor>) / 60)\<rfloor>"
    and "0 \<le> \<lfloor>fl ((x - 3600 * of_int \<lfloor>x / 3600\<rfloor>) / 60)\<rfloor>"
    and "\<lfloor>fl ((x - 3600 * of_int \<lfloor>x / 3600\<rfloor>) / 60)\<rfloor> \<le> 59"
    and "py_int (py_mod x 60) = \<lfloor>x\<rfloor> mod 60"
    and "py_int (fl (fl (py_mod x 60 - of_int (\<lfloor>x\<rfloor> mod 60)) * 100)) = \<lfloor>fl ((x - of_int \<lfloor>x\<rfloor>) * 100)\<rfloor>"
    and "0 \<le> \<lfloor>fl ((x - of_int \<lfloor>x\<rfloor>) * 100)\<rfloor>"
    and "\<lfloor>fl ((x - of_int \<lfloor>x\<rfloor>) * 100)\<rfloor> \<le> 99"
proof -
  from assms(1) have "0 \<le> fl (x / 3600)" by (intro fl_nonneg) simp
  then show "py_int (fl (x / 3600)) = \<lfloor>fl (x / 3600)\<rfloor>" by (rule py_int_floor)
  note h = py_mod_nonneg [OF assms(1), of 3600, simplified]
  from assms(1) have q0: "0 \<le> \<lfloor>x / 3600\<rfloor>" by simp
  have hx: "py_mod x 3600 \<le> x"
    using h(1) q0 by simp
  have hd: "fl (py_mod x 3600) = py_mod x 3600"
  proof (rule remainder_is_double [OF assms(2) h(2) hx])
    from h(3) show "py_mod x 3600 < 2 powi 55" by simp
    show "py_mod x 3600 = x - real_of_int (4 * 900) * real_of_int \<lfloor>x / 3600\<rfloor>"
      using h(1) by simp
  qed
  from h(2) have mn: "0 \<le> fl (py_mod x 3600 / 60)" by (intro fl_nonneg) simp
  from fl_minutes_below_60 [OF h(2) double_below_3600 [OF hd h(2,3)]]
  have mx: "fl (py_mod x 3600 / 60) < 60" .
  from mn have "py_int (fl (py_mod x 3600 / 60)) = \<lfloor>fl (py_mod x 3600 / 60)\<rfloor>"
    by (rule py_int_floor)
  then show "py_int (fl (py_mod x 3600 / 60)) = \<lfloor>fl ((x - 3600 * of_int \<lfloor>x / 3600\<rfloor>) / 60)\<rfloor>"
    by (simp only: h(1))
  from mn have "0 \<le> \<lfloor>fl (py_mod x 3600 / 60)\<rfloor>" by simp
  then show "0 \<le> \<lfloor>fl ((x - 3600 * of_int \<lfloor>x / 3600\<rfloor>) / 60)\<rfloor>"
    by (simp only: h(1))
  from mx have "\<lfloor>fl (py_mod x 3600 / 60)\<rfloor> < 60" by linarith
  then have "\<lfloor>fl (py_mod x 3600 / 60)\<rfloor> \<le> 59" by simp
  then show "\<lfloor>fl ((x - 3600 * of_int \<lfloor>x / 3600\<rfloor>) / 60)\<rfloor> \<le> 59"
    by (simp only: h(1))
  note s = py_mod_nonneg [OF assms(1), of 60, simplified]
  define n where "n = \<lfloor>x / 60\<rfloor>"
  have m: "n = \<lfloor>x\<rfloor> div 60"
    using floor_divide_real_eq_div [of 60 x] by (simp add: n_def)
  have seq: "py_mod x 60 = x - of_int (60 * n)"
    using s(1) by (simp add: n_def)
  then have "\<lfloor>py_mod x 60\<rfloor> = \<lfloor>x\<rfloor> - 60 * n"
    by (simp only: floor_diff_of_int)
  also have "\<dots> = \<lfloor>x\<rfloor> mod 60"
    by (simp add: m minus_mult_div_eq_mod)
  finally have fs: "\<lfloor>py_mod x 60\<rfloor> = \<lfloor>x\<rfloor> mod 60" .
  from s(2) have "py_int (py_mod x 60) = \<lfloor>py_mod x 60\<rfloor>" by (rule py_int_floor)
  with fs show "py_int (py_mod x 60) = \<lfloor>x\<rfloor> mod 60" by simp
  from assms(1) have n0: "0 \<le> n" by (simp add: n_def)
  have sx: "py_mod x 60 \<le> x"
    using seq n0 by simp
  have dbl: "fl (py_mod x 60) = py_mod x 60"
  proof (rule remainder_is_double [OF assms(2) s(2) sx])
    from s(3) show "py_mod x 60 < 2 powi 55" by simp
    show "py_mod x 60 = x - real_of_int (4 * 15) * real_of_int n"
      using seq by simp
  qed
  have frac: "py_mod x 60 - of_int \<lfloor>py_mod x 60\<rfloor> = x - of_int \<lfloor>x\<rfloor>"
    by (simp add: fs) (simp add: seq m minus_mult_div_eq_mod [symmetric])
  from fraction_is_double [OF dbl s(2)]
  have t: "fl (x - of_int \<lfloor>x\<rfloor>) = x - of_int \<lfloor>x\<rfloor>" "x - of_int \<lfloor>x\<rfloor> \<le> 1 - 2 powi (- 53)"
    by (simp_all only: frac)
  have t0: "0 \<le> x - of_int \<lfloor>x\<rfloor>" by simp
  then have c0: "0 \<le> fl ((x - of_int \<lfloor>x\<rfloor>) * 100)" by (intro fl_nonneg) simp
  from fl_centiseconds_below_100 [OF t0 t(2)]
  have c1: "fl ((x - of_int \<lfloor>x\<rfloor>) * 100) < 100" .
  have "py_mod x 60 - of_int (\<lfloor>x\<rfloor> mod 60) = x - of_int \<lfloor>x\<rfloor>"
    using frac by (simp only: fs)
  then have "fl (fl (py_mod x 60 - of_int (\<lfloor>x\<rfloor> mod 60)) * 100) = fl ((x - of_int \<lfloor>x\<rfloor>) * 100)"
    by (simp only: t(1))
  with c0 show "py_int (fl (fl (py_mod x 60 - of_int (\<lfloor>x\<rfloor> mod 60)) * 100)) = \<lfloor>fl ((x - of_int \<lfloor>x\<rfloor>) * 100)\<rfloor>"
    by (simp only: py_int_floor)
  from c0 show "0 \<le> \<lfloor>fl ((x - of_int \<lfloor>x\<rfloor>) * 100)\<rfloor>" by simp
  from c1 have "\<lfloor>fl ((x - of_int \<lfloor>x\<rfloor>) * 100)\<rfloor> < 100" by linarith
  then show "\<lfloor>fl ((x - of_int \<lfloor>x\<rfloor>) * 100)\<rfloor> \<le> 99" by simp
qed

text \<open>The definitions that the formatting of a concrete time unfolds.\<close>

lemmas time_defs = format_time_def Let_def py_mod_def py_int_def str_int_def fmt_02d_def
  str_nat.simps digit_char_def

text \<open>
  Claim C9. For a double that is not negative \<open>format_time\<close> gives the format
  \<open>H:MM:SS.cc\<close>: the hours unpadded; the minutes, at most 59, and the seconds, the whole
  seconds modulo 60, on two digits; the centiseconds on two digits, cut, not rounded,
  from the fractional part times 100, which is at most 99. The quotients and the product
  are those of doubles, rounded to the nearest double before they are cut. In particular
  the double 3725.678 is written \<open>1:02:05.67\<close>.
\<close>

theorem format_time_follows_spec:
  "(0 \<le> x \<and> fl x = x \<longrightarrow>
      format_time x = spec_format_time x \<and>
      0 \<le> \<lfloor>fl ((x - 3600 * of_int \<lfloor>x / 3600\<rfloor>) / 60)\<rfloor> \<and>
      \<lfloor>fl ((x - 3600 * of_int \<lfloor>x / 3600\<rfloor>) / 60)\<rfloor> \<le> 59 \<and>
      0 \<le> \<lfloor>fl ((x - of_int \<lfloor>x\<rfloor>) * 100)\<rfloor> \<and> \<lfloor>fl ((x - of_int \<lfloor>x\<rfloor>) * 100)\<rfloor> \<le> 99) \<and>
   format_time (fl 3725.678) = ''1:02:05.67''"
proof -
  have "format_time x = spec_format_time x" if x: "0 \<le> x" "fl x = x"
  proof -
    note p = format_time_parts [OF x]
    have mm: "fmt_02d \<lfloor>fl ((x - 3600 * of_int \<lfloor>x / 3600\<rfloor>) / 60)\<rfloor> =
        two_digits \<lfloor>fl ((x - 3600 * of_int \<lfloor>x / 3600\<rfloor>) / 60)\<rfloor>"
      by (rule fmt_02d_two_digits) (use p(3,4) in simp_all)
    have ss: "fmt_02d (\<lfloor>x\<rfloor> mod 60) = two_digits (\<lfloor>x\<rfloor> mod 60)"
      by (rule fmt_02d_two_digits) simp_all
    have cc: "fmt_02d \<lfloor>fl ((x - of_int \<lfloor>x\<rfloor>) * 100)\<rfloor> = two_digits \<lfloor>fl ((x - of_int \<lfloor>x\<rfloor>) * 100)\<rfloor>"
      by (rule fmt_02d_two_digits) (use p(7,8) in simp_all)
    show ?thesis
      unfolding format_time_def spec_format_time_def Let_def
      by (simp only: p(1,2,5,6) mm ss cc)
  qed
  moreover have "format_time (fl 3725.678) = ''1:02:05.67''"
    by (simp add: time_defs fl_facts)
  ultimately show ?thesis
    using format_time_parts(3,4,7,8) [of x] by blast
qed

text \<open>
  The double nearest to 59.999 is written \<open>0:00:59.99\<close>, a rounding would give a full
  minute. The double nearest to 0.03 lies below 0.03 and is written \<open>0:00:00.03\<close>: its
  product with 100 rounds to the double 3 before it is cut. The double nearest to 1.13 is
  written \<open>0:00:01.12\<close>: its fractional part times 100 stays below 13.
\<close>

theorem format_time_follows_spec_witness:
  "(0::real) \<le> fl 59.999 \<and> fl (fl 59.999) = fl 59.999 \<and>
   format_time (fl 59.999) = spec_format_time (fl 59.999) \<and>
   spec_format_time (fl 59.999) = ''0:00:59.99'' \<and>
   fl 0.03 < 0.03 \<and> fl (fl 0.03) = fl 0.03 \<and>
   format_time (fl 0.03) = spec_format_time (fl 0.03) \<and>
   spec_format_time (fl 0.03) = ''0:00:00.03'' \<and>
   format_time (fl 1.13) = ''0:00:01.12'' \<and>
   format_time (fl 3725.678) = ''1:02:05.67''"
proof -
  have a: "(0::real) \<le> fl 59.999 \<and> fl (fl 59.999) = fl 59.999"
    by (simp add: fl_facts)
  have b: "(0::real) \<le> fl 0.03 \<and> fl (fl 0.03) = fl 0.03 \<and> fl 0.03 < 0.03"
    by (simp add: fl_facts)
  have c: "format_time (fl 59.999) = ''0:00:59.99''"
    by (simp add: time_defs fl_facts)
  have d: "format_time (fl 0.03) = ''0:00:00.03''"
    by (simp add: time_defs fl_facts)
  have e: "format_time (fl 1.13) = ''0:00:01.12''"
    by (simp add: time_defs fl_facts)
  from format_time_follows_spec [of "fl 59.999"] format_time_follows_spec [of "fl 0.03"] a b c d e
  show ?thesis by simp
qed

subsection \<open>The events\<close>

lemma events_loop_map:
  "events_loop style_name (Some shift) ps events =
     Inr (events @ map (spec_event style_name shift (py_int (fl (shift * - 100)))) ps)"
proof (induction ps arbitrary: events)
  case Nil
  show ?case by simp
next
  case (Cons p ps)
  obtain s e ws where p: "p = (s, e, ws)" by (cases p) auto
  show ?case
    by (simp add: p Let_def Cons.IH spec_event_def)
qed

lemma events_loop_no_shift:
  "ps \<noteq> [] \<Longrightarrow> events_loop style_name None ps events = Inl TypeError"
  by (cases ps) auto

text \<open>
  Claim C6, as stated, fails for a positive shift. With a shift of 0.125 the code
  writes the lead-in tag \<open>{\K-12}\<close>, since \<^verbatim>\<open>int\<close> cuts -12.5 toward zero, where
  the floor of -12.5 is -13. The shift, its product with -100 and the shifted start 1.125
  are doubles, so nothing is rounded here.
\<close>

theorem lead_in_tag_truncates_toward_zero:
  "create_ass_file [(1, 2, ''a'')] ''Default'' ''<eps>'' 2 5 (Some 0.125) =
     Inr (header ''Default'' @ ''Dialogue: 0,0:00:01.12,0:00:02.00,Default,,0,0,0,,'' @
          k_tag (- 12) @ k_tag 100 @ ''a '') \<and>
   fl (- (0.125 :: real) * 100) = - 0.125 * 100 \<and>
   \<lfloor>- (0.125 :: real) * 100\<rfloor> = - 13 \<and>
   \<not> prefix (k_tag \<lfloor>- (0.125 :: real) * 100\<rfloor>) (k_tag (- 12) @ k_tag 100 @ ''a '')"
  by (simp add: create_ass_file_def run_defs time_defs enc_defs fl_facts)

text \<open>
  Claim C6, amended. With a time shift given, \<open>create_ass_file\<close> writes the header and,
  for each phrase in order, one event whose start is \<open>max(0, start + shift_time)\<close>, whose
  end is the end of the phrase, unshifted, and whose markup is the lead-in tag followed by
  the line of the encoder. The number of the lead-in tag is \<open>shift_time * -100\<close> cut
  toward zero; for a shift that is not positive this is \<open>floor(-shift_time * 100)\<close>. The
  sum and the product are those of doubles. For a shift of -0.5 and a phrase starting at
  the double 0.2 the start is 0 and the lead-in tag is \<open>{\K50}\<close>.
\<close>

theorem dialogue_events_of_phrases:
  "(\<exists>ps. group_into_phrases intervals marker min_gap target = Inr ps \<and>
      create_ass_file intervals style_name marker min_gap target (Some shift) =
        Inr (header style_name @
             py_join [CHR 0x0A]
               (map (spec_event style_name shift (py_int (fl (shift * - 100)))) ps))) \<and>
   (shift \<le> 0 \<longrightarrow> py_int (fl (shift * - 100)) = \<lfloor>fl (- shift * 100)\<rfloor>) \<and>
   max 0 (fl (fl 0.2 + (- 0.5))) = 0 \<and>
   k_tag \<lfloor>fl (- (- 0.5) * 100)\<rfloor> = ''{'' @ [CHR 0x5C] @ ''K50}''"
proof -
  from group_into_phrases_returns [of intervals marker min_gap target]
  obtain ps where ps: "group_into_phrases intervals marker min_gap target = Inr ps"
    by blast
  then have "create_ass_file intervals style_name marker min_gap target (Some shift) =
        Inr (header style_name @
             py_join [CHR 0x0A]
               (map (spec_event style_name shift (py_int (fl (shift * - 100)))) ps))"
    by (simp add: create_ass_file_def events_loop_map)
  with ps have run: "\<exists>ps. group_into_phrases intervals marker min_gap target = Inr ps \<and>
      create_ass_file intervals style_name marker min_gap target (Some shift) =
        Inr (header style_name @
             py_join [CHR 0x0A]
               (map (spec_event style_name shift (py_int (fl (shift * - 100)))) ps))"
    by blast
  have "py_int (fl (shift * - 100)) = \<lfloor>fl (- shift * 100)\<rfloor>" if "shift \<le> 0"
  proof -
    from that have "0 \<le> fl (shift * - 100)" by (intro fl_nonneg) simp
    then have "py_int (fl (shift * - 100)) = \<lfloor>fl (shift * - 100)\<rfloor>" by (rule py_int_floor)
    then show ?thesis by simp
  qed
  moreover have "max 0 (fl (fl 0.2 + (- 0.5))) = 0"
    by (simp add: fl_facts)
  moreover have "k_tag \<lfloor>fl (- (- 0.5) * 100)\<rfloor> = ''{'' @ [CHR 0x5C] @ ''K50}''"
    by (simp add: enc_defs fl_facts)
  ultimately show ?thesis using run by blast
qed

text \<open>
  One word from the double 0.2 to 1 with a shift of -0.5: the event starts at
  \<open>0:00:00.00\<close> and its markup starts with \<open>{\K50}\<close>. With the double nearest to
  -0.29 as the shift the number of the lead-in tag is 28: the product is below 29.
\<close>

theorem dialogue_events_of_phrases_witness:
  "(- 0.5 :: real) \<le> 0 \<and> py_int (fl (- 0.5 * - 100)) = \<lfloor>fl (- (- 0.5) * 100)\<rfloor> \<and>
   fl (- 0.29) \<le> 0 \<and>
   py_int (fl (fl (- 0.29) * - 100)) = \<lfloor>fl (- fl (- 0.29) * 100)\<rfloor> \<and>
   py_int (fl (fl (- 0.29) * - 100)) = 28 \<and>
   group_into_phrases [(fl 0.2, 1, ''hello'')] ''<eps>'' 2 5 =
     Inr [(fl 0.2, 1, [(fl 0.2, 1, ''hello'', False)])] \<and>
   create_ass_file [(fl 0.2, 1, ''hello'')] ''Default'' ''<eps>'' 2 5 (Some (- 0.5)) =
     Inr (header ''Default'' @
          spec_event ''Default'' (- 0.5) (py_int (fl (- 0.5 * - 100)))
            (fl 0.2, 1, [(fl 0.2, 1, ''hello'', False)])) \<and>
   spec_event ''Default'' (- 0.5) (py_int (fl (- 0.5 * - 100)))
       (fl 0.2, 1, [(fl 0.2, 1, ''hello'', False)]) =
     ''Dialogue: 0,0:00:00.00,0:00:01.00,Default,,0,0,0,,{'' @ [CHR 0x5C] @ ''K50}{'' @
     [CHR 0x5C] @ ''K80}hello ''"
proof -
  have g: "group_into_phrases [(fl 0.2, 1, ''hello'')] ''<eps>'' 2 5 =
      Inr [(fl 0.2, 1, [(fl 0.2, 1, ''hello'', False)])]"
    by (simp add: run_defs)
  have e: "spec_event ''Default'' (- 0.5) (py_int (fl (- 0.5 * - 100)))
       (fl 0.2, 1, [(fl 0.2, 1, ''hello'', False)]) =
     ''Dialogue: 0,0:00:00.00,0:00:01.00,Default,,0,0,0,,{'' @ [CHR 0x5C] @ ''K50}{'' @
     [CHR 0x5C] @ ''K80}hello ''"
    by (simp add: spec_event_def time_defs enc_defs fl_facts)
  have s: "fl (- 0.29) \<le> 0" "py_int (fl (fl (- 0.29) * - 100)) = 28"
    by (simp_all add: py_int_def fl_facts)
  from dialogue_events_of_phrases [of "[(fl 0.2, 1, ''hello'')]" "''<eps>''" 2 5 "''Default''" "- 0.5"]
    dialogue_events_of_phrases [of "[]" "[]" 0 0 "[]" "fl (- 0.29)"] g e s
  show ?thesis by simp
qed

lemma create_ass_file_without_shift:
  assumes "filter_intervals marker intervals \<noteq> []"
  shows "create_ass_file intervals style_name marker min_gap target None = Inl TypeError"
proof -
  from group_into_phrases_returns [of intervals marker min_gap target]
  obtain ps where ps: "group_into_phrases intervals marker min_gap target = Inr ps"
    "concat (map phrase_words ps) = map (stored_word marker) (filter_intervals marker intervals)"
    by blast
  from ps(2) assms have "ps \<noteq> []" by auto
  with ps(1) show ?thesis
    by (simp add: create_ass_file_def events_loop_no_shift)
qed

text \<open>
  Claim C7 does not hold on the code, which contradicts its own help text
  (\<open>default: 0.0\<close>) and the default of \<open>create_ass_file\<close>: \<^verbatim>\<open>--shift-time\<close> has no
  default in the parser, \<open>main\<close> passes \<^verbatim>\<open>None\<close> on, and with one word in the tier
  the run ends in a \<open>TypeError\<close> and writes nothing, where a shift of 0.0 writes the
  file.
\<close>

theorem missing_shift_time_raises_type_error:
  "main \<lparr>cl_input = ''in.TextGrid'', cl_output = ''out.ass'', cl_tier = None, cl_style = None,
          cl_phrase_marker = None, cl_min_phrase_gap = None, cl_target_duration = None,
          cl_shift_time = None\<rparr>
        [(''words'', [(0, 1, ''hello'')])] = Inl TypeError \<and>
   main \<lparr>cl_input = ''in.TextGrid'', cl_output = ''out.ass'', cl_tier = None, cl_style = None,
          cl_phrase_marker = None, cl_min_phrase_gap = None, cl_target_duration = None,
          cl_shift_time = Some 0.0\<rparr>
        [(''words'', [(0, 1, ''hello'')])] =
     Inr (Written ''out.ass''
           (header ''Default'' @ ''Dialogue: 0,0:00:00.00,0:00:01.00,Default,,0,0,0,,{'' @
            [CHR 0x5C] @ ''K0}{'' @ [CHR 0x5C] @ ''K100}hello ''))"
  by (simp add: main_def parse_args_def create_ass_file_def run_defs time_defs enc_defs fl_facts)

subsection \<open>A word that is only the marker\<close>

lemma replace_marker_itself: "marker \<noteq> [] \<Longrightarrow> py_replace marker '' '' marker = '' ''"
  by (cases marker) (simp_all add: py_replace_def)

lemma py_strip_Nil: "py_strip [] = []"
  by (simp add: py_strip_def)

lemma filter_intervals_member:
  "(s, e, tx) \<in> set intervals \<Longrightarrow> py_strip tx \<noteq> [] \<Longrightarrow> tx \<noteq> ''<p:>'' \<Longrightarrow>
   (s, e, tx, py_in marker tx) \<in> set (filter_intervals marker intervals)"
  by (induction marker intervals rule: filter_intervals.induct) auto

text \<open>
  Claim C10. An interval whose text is exactly the marker, the marker being neither
  blank nor the silence token, is kept by the segmenter as a word of some phrase with the
  empty text and the marker flag set; and wherever such a word stands in a phrase, the
  encoder writes for it its tag followed by a space, after one more space when the word
  is not the first.
\<close>

theorem marker_only_word_kept:
  assumes "(s, e, marker) \<in> set intervals" and "py_strip marker \<noteq> []" and "marker \<noteq> ''<p:>''"
  shows "(\<exists>ps. group_into_phrases intervals marker min_gap target = Inr ps \<and>
            (s, e, [], True) \<in> set (concat (map phrase_words ps))) \<and>
    create_karaoke_line (pre @ (s, e, [], True) # post) =
      create_karaoke_line pre @ (if pre = [] then [] else '' '') @
      k_tag (py_int (fl (fl (e - s) * 100))) @ '' '' @ karaoke_loop (Suc (length pre)) post []"
proof -
  from assms(2) have ne: "marker \<noteq> []" by (auto simp: py_strip_Nil)
  have has: "py_in marker marker" by (simp add: py_in_iff_sublist)
  from filter_intervals_member [OF assms, of marker] has
  have "(s, e, marker, True) \<in> set (filter_intervals marker intervals)" by simp
  then have "stored_word marker (s, e, marker, True)
      \<in> set (map (stored_word marker) (filter_intervals marker intervals))"
    by simp
  moreover have "stored_word marker (s, e, marker, True) = (s, e, [], True)"
    by (simp add: stored_word_def replace_marker_itself [OF ne] py_strip_def py_isspace_def)
  ultimately have stored: "(s, e, [], True)
      \<in> set (map (stored_word marker) (filter_intervals marker intervals))"
    by (simp only:)
  from group_into_phrases_returns [of intervals marker min_gap target]
  obtain ps where ps: "group_into_phrases intervals marker min_gap target = Inr ps"
    "concat (map phrase_words ps) = map (stored_word marker) (filter_intervals marker intervals)"
    by blast
  from stored have "(s, e, [], True) \<in> set (concat (map phrase_words ps))"
    by (simp only: ps(2))
  with ps(1) have kept: "\<exists>ps. group_into_phrases intervals marker min_gap target = Inr ps \<and>
            (s, e, [], True) \<in> set (concat (map phrase_words ps))"
    by blast
  have "create_karaoke_line (pre @ (s, e, [], True) # post) =
      create_karaoke_line pre @ (if pre = [] then [] else '' '') @
      k_tag (py_int (fl (fl (e - s) * 100))) @ '' '' @ karaoke_loop (Suc (length pre)) post []"
    by (simp add: create_karaoke_line_def karaoke_loop_app karaoke_loop_Cons word_markup_def)
  with kept show ?thesis by blast
qed

text \<open>
  The marker alone between two words: it stays in the phrase with an empty text and
  gets its own tag.
\<close>

theorem marker_only_word_kept_witness:
  "(1, 2, ''<eps>'') \<in> set ([(0, 1, ''hello''), (1, 2, ''<eps>''), (2, 3, ''world'')] :: interval list) \<and>
   py_strip ''<eps>'' = ''<eps>'' \<and>
   group_into_phrases [(0, 1, ''hello''), (1, 2, ''<eps>''), (2, 3, ''world'')] ''<eps>'' 2 5 =
     Inr [(0, 3, [(0, 1, ''hello'', False), (1, 2, [], True), (2, 3, ''world'', False)])] \<and>
   (1, 2, [], True) \<in> set (concat (map phrase_words
       [(0, 3, [(0, 1, ''hello'', False), (1, 2, [], True), (2, 3, ''world'', False)])])) \<and>
   create_karaoke_line ([(0, 1, ''hello'', False)] @ (1, 2, [], True) # [(2, 3, ''world'', False)]) =
     create_karaoke_line [(0, 1, ''hello'', False)] @ '' '' @ k_tag 100 @ '' '' @
     karaoke_loop 2 [(2, 3, ''world'', False)] [] \<and>
   create_karaoke_line [(0, 1, ''hello'', False), (1, 2, [], True), (2, 3, ''world'', False)] =
     ''{'' @ [CHR 0x5C] @ ''K100}hello  {'' @ [CHR 0x5C] @ ''K100} {'' @ [CHR 0x5C] @ ''K100}world ''"
proof -
  have mem: "(1, 2, ''<eps>'') \<in> set ([(0, 1, ''hello''), (1, 2, ''<eps>''), (2, 3, ''world'')] :: interval list)"
    by simp
  have strip: "py_strip ''<eps>'' = ''<eps>''"
    by (simp add: py_strip_def py_isspace_def)
  then have ne: "py_strip ''<eps>'' \<noteq> []" by simp
  have tok: "''<eps>'' \<noteq> ''<p:>''" by simp
  have run: "group_into_phrases [(0, 1, ''hello''), (1, 2, ''<eps>''), (2, 3, ''world'')] ''<eps>'' 2 5 =
     Inr [(0, 3, [(0, 1, ''hello'', False), (1, 2, [], True), (2, 3, ''world'', False)])]"
    by (simp add: run_defs)
  have line: "create_karaoke_line [(0, 1, ''hello'', False), (1, 2, [], True), (2, 3, ''world'', False)] =
     ''{'' @ [CHR 0x5C] @ ''K100}hello  {'' @ [CHR 0x5C] @ ''K100} {'' @ [CHR 0x5C] @ ''K100}world ''"
    by (simp add: enc_defs fl_facts)
  have cs: "py_int (fl (fl (2 - 1) * 100)) = 100" by (simp add: py_int_def fl_facts)
  from marker_only_word_kept [OF mem ne tok, of 2 5 "[(0, 1, ''hello'', False)]" "[(2, 3, ''world'', False)]"]
    mem strip run line cs
  show ?thesis by (simp add: numeral_2_eq_2)
qed

end
